theory Spec2Isabelle
  imports Complex_Main
begin

section \<open>Number model\<close>

text \<open>
  The program computes with IEEE doubles (TypeScript \<open>number\<close>, GLSL \<open>float\<close>).
  This development models every such value as a \<^typ>\<open>real\<close>, with no NaN, no infinity
  and no signed zero. Outside the function \<open>n2\<close> arithmetic is exact and \<open>Math.PI\<close> is
  the real number \<open>\<pi>\<close>: a statement "within floating tolerance" of the specification
  appears as an exact equation, or as a bound by an explicit constant of the program.
  In \<open>n2\<close> the result depends on the rounding of its one addition and on the double
  that \<open>Math.PI\<close> is, so there both are modelled as the doubles have them.

  A JavaScript \<open>Date\<close> holds an integral number of milliseconds since the Unix epoch;
  the type \<open>Date\<close> below is that integer (an invalid date is not an instant and is left
  out).
\<close>

type_synonym Date = int

definition getTime :: "Date \<Rightarrow> real" where
  "getTime d = of_int d"

subsection \<open>The remainder operator of JavaScript\<close>

text \<open>
  \<open>x % y\<close> on numbers is the truncating remainder: \<open>x - y * trunc (x / y)\<close>, with the
  sign of the dividend. (\<open>y = 0\<close> gives NaN in JavaScript; every divisor of the program
  is a non-zero constant.)
\<close>

definition js_trunc :: "real \<Rightarrow> int" where
  "js_trunc q = (if 0 \<le> q then \<lfloor>q\<rfloor> else \<lceil>q\<rceil>)"

definition fmod :: "real \<Rightarrow> real \<Rightarrow> real" where
  "fmod x y = x - y * of_int (js_trunc (x / y))"

subsection \<open>Rounding to a double\<close>

text \<open>
  \<open>rne\<close> rounds a real to the nearest integer, a tie to the even one. \<open>ulp x\<close> is the
  spacing of the doubles around \<open>x\<close>: \<open>2\<close> to the power \<open>e - 52\<close> for the binary exponent
  \<open>e\<close> of \<open>x\<close>, and \<open>2\<close> to the power \<open>-1074\<close> in the subnormal range. \<open>fl x\<close> is \<open>x\<close>
  rounded to the nearest double, ties to even (IEEE 754 roundTiesToEven; the overflow
  to infinity above the largest double is left out). The remainder \<open>%\<close> of two doubles
  is a double, so \<open>fmod\<close> needs no rounding.
\<close>

definition rne :: "real \<Rightarrow> int" where
  "rne q =
     (let f = \<lfloor>q\<rfloor>; r = q - of_int f
      in if r < 1 / 2 then f
         else if 1 / 2 < r then f + 1
         else if even f then f else f + 1)"

definition ulp :: "real \<Rightarrow> real" where
  "ulp x = 2 powr (of_int (max \<lfloor>log 2 \<bar>x\<bar>\<rfloor> (- 1022)) - 52)"

definition fl :: "real \<Rightarrow> real" where
  "fl x = (if x = 0 then 0 else of_int (rne (x / ulp x)) * ulp x)"

text \<open>\<open>Math.PI\<close>, the double \<open>0x1.921fb54442d18p+1\<close>, and the value of the expression
  \<open>2 * Math.PI\<close>.\<close>

definition Math_PI :: real where
  "Math_PI = 884279719003555 / 2 ^ 48"

definition TWO_PI :: real where
  "TWO_PI = fl (2 * Math_PI)"

text \<open>\<open>Math.atan2 (y, x)\<close> on reals.\<close>

definition atan2 :: "real \<Rightarrow> real \<Rightarrow> real" where
  "atan2 y x =
     (if 0 < x then arctan (y / x)
      else if x < 0 then (if 0 \<le> y then arctan (y / x) + pi else arctan (y / x) - pi)
      else if 0 < y then pi / 2
      else if y < 0 then - (pi / 2)
      else 0)"

section \<open>three.js values used by the program\<close>

text \<open>
  \<open>THREE.Vector3\<close>, \<open>THREE.Quaternion\<close> and \<open>THREE.MathUtils\<close> belong to the three.js
  library. The methods the program calls are transcribed from the library:
  \<open>normalize\<close> is \<open>divideScalar (length () || 1)\<close>, \<open>divideScalar s\<close> is
  \<open>multiplyScalar (1 / s)\<close>, \<open>lerpVectors (a, b, t)\<close> is \<open>a + (b - a) * t\<close> per
  component, \<open>clamp (v, lo, hi)\<close> is \<open>max (lo, min (hi, v))\<close>.
\<close>

record Vector3 =
  vx :: real
  vy :: real
  vz :: real

record Quaternion =
  qx :: real
  qy :: real
  qz :: real
  qw :: real

definition Vec3 :: "real \<Rightarrow> real \<Rightarrow> real \<Rightarrow> Vector3" where
  "Vec3 a b c = \<lparr>vx = a, vy = b, vz = c\<rparr>"

definition length_v3 :: "Vector3 \<Rightarrow> real" where
  "length_v3 v = sqrt (vx v * vx v + vy v * vy v + vz v * vz v)"

definition multiplyScalar :: "Vector3 \<Rightarrow> real \<Rightarrow> Vector3" where
  "multiplyScalar v s = Vec3 (vx v * s) (vy v * s) (vz v * s)"

definition divideScalar :: "Vector3 \<Rightarrow> real \<Rightarrow> Vector3" where
  "divideScalar v s = multiplyScalar v (1 / s)"

definition normalize_v3 :: "Vector3 \<Rightarrow> Vector3" where
  "normalize_v3 v = divideScalar v (if length_v3 v = 0 then 1 else length_v3 v)"

definition dot :: "Vector3 \<Rightarrow> Vector3 \<Rightarrow> real" where
  "dot a b = vx a * vx b + vy a * vy b + vz a * vz b"

definition distanceToSquared :: "Vector3 \<Rightarrow> Vector3 \<Rightarrow> real" where
  "distanceToSquared a b =
     (let dx = vx a - vx b; dy = vy a - vy b; dz = vz a - vz b
      in dx * dx + dy * dy + dz * dz)"

definition distanceTo :: "Vector3 \<Rightarrow> Vector3 \<Rightarrow> real" where
  "distanceTo a b = sqrt (distanceToSquared a b)"

definition lerpVectors :: "Vector3 \<Rightarrow> Vector3 \<Rightarrow> real \<Rightarrow> Vector3" where
  "lerpVectors v1 v2 alpha =
     Vec3 (vx v1 + (vx v2 - vx v1) * alpha)
          (vy v1 + (vy v2 - vy v1) * alpha)
          (vz v1 + (vz v2 - vz v1) * alpha)"

definition negate :: "Vector3 \<Rightarrow> Vector3" where
  "negate v = Vec3 (- vx v) (- vy v) (- vz v)"

definition add_v3 :: "Vector3 \<Rightarrow> Vector3 \<Rightarrow> Vector3" where
  "add_v3 a b = Vec3 (vx a + vx b) (vy a + vy b) (vz a + vz b)"

definition clamp :: "real \<Rightarrow> real \<Rightarrow> real \<Rightarrow> real" where
  "clamp v lo hi = max lo (min hi v)"

definition degToRad :: "real \<Rightarrow> real" where
  "degToRad degrees = degrees * (pi / 180)"

definition radToDeg :: "real \<Rightarrow> real" where
  "radToDeg radians = radians * (180 / pi)"

text \<open>
  \<open>Quaternion.setFromUnitVectors\<close> treats two directions as opposite when their dot
  product plus 1 is below a threshold fixed by the release of the library
  (\<open>Number.EPSILON\<close> or \<open>1e-8\<close>, depending on the release). The threshold is the
  parameter \<open>eps\<close> of the model; \<open>EPSILON\<close> is \<open>Number.EPSILON\<close>.
\<close>

definition EPSILON :: real where
  "EPSILON = 1 / 2 ^ 52"

definition length_q :: "Quaternion \<Rightarrow> real" where
  "length_q q = sqrt (qx q * qx q + qy q * qy q + qz q * qz q + qw q * qw q)"

definition normalize_q :: "Quaternion \<Rightarrow> Quaternion" where
  "normalize_q q =
     (let l = length_q q
      in if l = 0 then \<lparr>qx = 0, qy = 0, qz = 0, qw = 1\<rparr>
         else \<lparr>qx = qx q * (1 / l), qy = qy q * (1 / l), qz = qz q * (1 / l),
               qw = qw q * (1 / l)\<rparr>)"

definition setFromUnitVectors :: "real \<Rightarrow> Vector3 \<Rightarrow> Vector3 \<Rightarrow> Quaternion" where
  "setFromUnitVectors eps vFrom vTo =
     (let r = dot vFrom vTo + 1
      in if r < eps then
           (if \<bar>vx vFrom\<bar> > \<bar>vz vFrom\<bar>
            then normalize_q \<lparr>qx = - vy vFrom, qy = vx vFrom, qz = 0, qw = 0\<rparr>
            else normalize_q \<lparr>qx = 0, qy = - vz vFrom, qz = vy vFrom, qw = 0\<rparr>)
         else normalize_q
           \<lparr>qx = vy vFrom * vz vTo - vz vFrom * vy vTo,
            qy = vz vFrom * vx vTo - vx vFrom * vz vTo,
            qz = vx vFrom * vy vTo - vy vFrom * vx vTo,
            qw = r\<rparr>)"

definition applyQuaternion :: "Vector3 \<Rightarrow> Quaternion \<Rightarrow> Vector3" where
  "applyQuaternion v q =
     (let tx = 2 * (qy q * vz v - qz q * vy v);
          ty = 2 * (qz q * vx v - qx q * vz v);
          tz = 2 * (qx q * vy v - qy q * vx v)
      in Vec3 (vx v + qw q * tx + qy q * tz - qz q * ty)
              (vy v + qw q * ty + qz q * tx - qx q * tz)
              (vz v + qw q * tz + qx q * ty - qy q * tx))"

section \<open>Globe configuration (GlobeScene.tsx)\<close>

definition SUN_W :: Vector3 where
  "SUN_W = normalize_v3 (Vec3 (- 0.7) 0.7 0.75)"

definition TIME_SCALE :: int where
  "TIME_SCALE = 1"

definition AMBIENT :: real where
  "AMBIENT = 0.10"

definition CLOUD_ROTATION_PERIOD_HOURS :: real where
  "CLOUD_ROTATION_PERIOD_HOURS = 12"

definition CLOUD_SPEED_MULTIPLIER :: real where
  "CLOUD_SPEED_MULTIPLIER = 36"

definition OMEGA_CLOUD :: real where
  "OMEGA_CLOUD = (2 * pi) / (CLOUD_ROTATION_PERIOD_HOURS * 3600)"

definition GLOBE_RADIUS :: real where
  "GLOBE_RADIUS = 1.5"

definition MARKER_HEIGHT :: real where
  "MARKER_HEIGHT = 0.017"

section \<open>The fragment shader earthFS\<close>

text \<open>
  The GLSL built-ins: \<open>clamp (x, lo, hi) = min (max (x, lo), hi)\<close>,
  \<open>smoothstep (e0, e1, x)\<close> with \<open>t = clamp ((x - e0) / (e1 - e0), 0, 1)\<close> returns
  \<open>t * t * (3 - 2 * t)\<close>, and \<open>normalize v = v / length v\<close>.
\<close>

definition glsl_clamp :: "real \<Rightarrow> real \<Rightarrow> real \<Rightarrow> real" where
  "glsl_clamp v lo hi = min (max v lo) hi"

definition smoothstep :: "real \<Rightarrow> real \<Rightarrow> real \<Rightarrow> real" where
  "smoothstep edge0 edge1 v =
     (let t = glsl_clamp ((v - edge0) / (edge1 - edge0)) 0 1 in t * t * (3 - 2 * t))"

definition glsl_normalize :: "Vector3 \<Rightarrow> Vector3" where
  "glsl_normalize v = multiplyScalar v (1 / length_v3 v)"

text \<open>\<open>dayAmt\<close> of the shader as a function of \<open>k\<close>.\<close>

definition dayAmt :: "real \<Rightarrow> real" where
  "dayAmt k = smoothstep (- 0.15) 0.15 k"

text \<open>The shader's \<open>main\<close>: the texels, the varying normal and the uniforms in,
  \<open>gl_FragColor\<close> (rgb and alpha) out.\<close>

definition earthFS ::
  "Vector3 \<Rightarrow> Vector3 \<Rightarrow> Vector3 \<Rightarrow> Vector3 \<Rightarrow> real \<Rightarrow> real \<Rightarrow> Vector3 \<times> real" where
  "earthFS dayCol nightCol vNormalW uSunDir uAmbient uGain =
     (let k = dot (glsl_normalize vNormalW) (glsl_normalize uSunDir);
          dayAmount = dayAmt k;
          nightAmt = 1.0 - dayAmount;
          color = add_v3 (multiplyScalar dayCol (uAmbient + dayAmount * (1.0 - uAmbient)))
                         (multiplyScalar nightCol (nightAmt * 0.9))
      in (color, uGain))"

section \<open>Solar geometry\<close>

definition DEG :: real where
  "DEG = pi / 180"

definition jd :: "Date \<Rightarrow> real" where
  "jd d = getTime d / 86400000 + 2440587.5"

definition T :: "real \<Rightarrow> real" where
  "T J = (J - 2451545.0) / 36525.0"

definition n2 :: "real \<Rightarrow> real" where
  "n2 a = (let a' = fmod a TWO_PI in if a' < 0 then fl (a' + TWO_PI) else a')"

text \<open>
  The local constants of \<open>solarRAdecAndGMST\<close>, one definition per \<open>const\<close>, each as
  a function of the date.
\<close>

definition solar_t :: "Date \<Rightarrow> real" where
  "solar_t d = T (jd d)"

definition solar_L0 :: "Date \<Rightarrow> real" where
  "solar_L0 d = (let t = solar_t d in fmod (280.46646 + t * (36000.76983 + 0.0003032 * t)) 360)"

definition solar_M :: "Date \<Rightarrow> real" where
  "solar_M d = (let t = solar_t d in 357.52911 + t * (35999.05029 - 0.0001537 * t))"

definition solar_Mr :: "Date \<Rightarrow> real" where
  "solar_Mr d = solar_M d * DEG"

definition solar_Omega :: "Date \<Rightarrow> real" where
  "solar_Omega d = 125.04 - 1934.136 * solar_t d"

definition solar_C :: "Date \<Rightarrow> real" where
  "solar_C d =
     (let t = solar_t d; Mr = solar_Mr d
      in (1.914602 - t * (0.004817 + 0.000014 * t)) * sin Mr
         + (0.019993 - 0.000101 * t) * sin (2.0 * Mr)
         + 0.000289 * sin (3.0 * Mr))"

definition solar_trueLong :: "Date \<Rightarrow> real" where
  "solar_trueLong d = solar_L0 d + solar_C d"

definition solar_lambdaApp :: "Date \<Rightarrow> real" where
  "solar_lambdaApp d = solar_trueLong d - 0.00569 - 0.00478 * sin (solar_Omega d * DEG)"

definition solar_eps0 :: "Date \<Rightarrow> real" where
  "solar_eps0 d =
     (let t = solar_t d
      in 23 + 26 / 60 + 21.448 / 3600
         - (46.8150 * t + 0.00059 * t * t - 0.001813 * t * t * t) / 3600)"

definition solar_eps :: "Date \<Rightarrow> real" where
  "solar_eps d = solar_eps0 d + 0.00256 * cos (solar_Omega d * DEG)"

definition solar_lam :: "Date \<Rightarrow> real" where
  "solar_lam d = solar_lambdaApp d * DEG"

definition solar_epsR :: "Date \<Rightarrow> real" where
  "solar_epsR d = solar_eps d * DEG"

definition solar_dec :: "Date \<Rightarrow> real" where
  "solar_dec d = arcsin (sin (solar_epsR d) * sin (solar_lam d))"

definition solar_ra :: "Date \<Rightarrow> real" where
  "solar_ra d =
     n2 (atan2 (cos (solar_epsR d) * sin (solar_lam d)) (cos (solar_lam d)))"

definition solar_GMSTdeg :: "Date \<Rightarrow> real" where
  "solar_GMSTdeg d =
     (let J = jd d; t = solar_t d
      in fmod (280.46061837 + 360.98564736629 * (J - 2451545.0) + 0.000387933 * t * t
               - (t * t * t) / 38710000) 360)"

definition solar_GMST :: "Date \<Rightarrow> real" where
  "solar_GMST d = n2 (solar_GMSTdeg d * DEG)"

record RAdecGMST =
  ra :: real
  dec :: real
  GMST :: real

definition solarRAdecAndGMST :: "Date \<Rightarrow> RAdecGMST" where
  "solarRAdecAndGMST d = \<lparr>ra = solar_ra d, dec = solar_dec d, GMST = solar_GMST d\<rparr>"

definition sun_Hg :: "Date \<Rightarrow> real" where
  "sun_Hg d = (let s = solarRAdecAndGMST d in n2 (GMST s - ra s))"

definition sunVec_EarthFixed :: "Date \<Rightarrow> Vector3" where
  "sunVec_EarthFixed d =
     (let s = solarRAdecAndGMST d; Hg = sun_Hg d; cosd = cos (dec s)
      in normalize_v3 (Vec3 (cosd * cos Hg) (sin (dec s)) (cosd * sin Hg)))"

section \<open>EarthSystem: the per-frame orientation update\<close>

text \<open>
  The state the \<open>useFrame\<close> callback of \<open>EarthSystem\<close> reads and writes: the module
  constant \<open>SUN_W\<close> (a mutable \<open>Vector3\<close> object, held here as a field so that a write
  to it would show), the quaternion of the group behind \<open>baseRef\<close> (\<open>None\<close> while the
  ref is not attached), the rotation of the cloud mesh (\<open>None\<close> while \<open>cloudsRef\<close> is
  not attached), \<open>introT\<close>, \<open>t0Real\<close>, \<open>t0Sim\<close> and the uniform \<open>uGain\<close>. The callback
  takes the threshold \<open>eps\<close> of the library, the clock reading \<open>Date.now ()\<close> and the
  frame time \<open>dt\<close>.
\<close>

record EarthSystem =
  SUN_W_obj :: Vector3
  base_quaternion :: "Quaternion option"
  clouds_rotation_y :: "real option"
  introT :: real
  t0Real :: int
  t0Sim :: int
  uGain :: real

definition sim_date :: "EarthSystem \<Rightarrow> int \<Rightarrow> Date" where
  "sim_date s now = t0Sim s + (now - t0Real s) * TIME_SCALE"

definition EarthSystem_useFrame :: "real \<Rightarrow> int \<Rightarrow> real \<Rightarrow> EarthSystem \<Rightarrow> EarthSystem" where
  "EarthSystem_useFrame eps now dt s =
     (case base_quaternion s of
        None \<Rightarrow> s
      | Some _ \<Rightarrow>
          (let sim = sim_date s now;
               s_e = sunVec_EarthFixed sim;
               q = setFromUnitVectors eps s_e (SUN_W_obj s);
               DURATION = 1.0;
               introT' = min (introT s + dt) DURATION;
               t = introT' / DURATION;
               eased = 1.0 - (1.0 - t) ^ 3
           in s\<lparr>base_quaternion := Some q,
                clouds_rotation_y :=
                  map_option (\<lambda>r. r + OMEGA_CLOUD * dt * CLOUD_SPEED_MULTIPLIER)
                    (clouds_rotation_y s),
                introT := introT',
                uGain := eased\<rparr>))"

text \<open>The state after mount: the refs as \<open>useRef\<close> and \<open>useMemo\<close> initialise them, the
  group attached with the identity rotation, the two clock readings \<open>r0\<close> and \<open>s0\<close>.\<close>

definition EarthSystem_init :: "int \<Rightarrow> int \<Rightarrow> EarthSystem" where
  "EarthSystem_init r0 s0 =
     \<lparr>SUN_W_obj = SUN_W, base_quaternion = Some \<lparr>qx = 0, qy = 0, qz = 0, qw = 1\<rparr>,
      clouds_rotation_y = Some 0, introT = 0, t0Real = r0, t0Sim = s0, uGain = 0.0\<rparr>"

section \<open>Markers (LoaderOverlay.tsx)\<close>

definition latLonToVec3 :: "real \<Rightarrow> real \<Rightarrow> real \<Rightarrow> Vector3" where
  "latLonToVec3 latDeg lonDeg r =
     (let lat = degToRad latDeg;
          lon = - degToRad lonDeg;
          x = r * cos lat * cos lon;
          y = r * sin lat;
          z = r * cos lat * sin lon
      in Vec3 x y z)"

section \<open>Camera Pilot\<close>

text \<open>
  The refs of the component, the position of the camera it moves, the \<open>enabled\<close> flag
  of the controls (\<open>None\<close> while \<open>controlsRef\<close> is empty) and the number of calls of
  \<open>onArrive\<close> made so far. The orientation of the camera (\<open>camera.lookAt\<close>) is not
  part of the model.
\<close>

record CameraPilot =
  startPos :: "Vector3 option"
  endPos :: "Vector3 option"
  lookAt :: "Vector3 option"
  t0 :: real
  duration :: real
  flying :: bool
  faded :: bool
  camera_position :: Vector3
  controls_enabled :: "bool option"
  arrivals :: nat

text \<open>The effect that runs when \<open>targetPoint\<close> changes; \<open>now\<close> is \<open>performance.now ()\<close>.\<close>

definition CameraPilot_useEffect :: "Vector3 option \<Rightarrow> real \<Rightarrow> CameraPilot \<Rightarrow> CameraPilot" where
  "CameraPilot_useEffect targetPoint now p =
     (case targetPoint of
        None \<Rightarrow> p
      | Some tp \<Rightarrow>
          (let n = normalize_v3 tp;
               e = multiplyScalar n (GLOBE_RADIUS + 0.09);
               s = camera_position p;
               d = distanceTo s e
           in p\<lparr>controls_enabled := map_option (\<lambda>_. False) (controls_enabled p),
                endPos := Some e,
                lookAt := Some tp,
                startPos := Some s,
                duration := clamp (0.7 + d * 0.35) 1.0 3.0,
                t0 := now,
                flying := True,
                faded := False\<rparr>))"

definition ease :: "real \<Rightarrow> real" where
  "ease t = (if t \<le> 0 then 0 else if t \<ge> 1 then 1 else t * t * (3 - 2 * t))"

text \<open>The per-frame callback; \<open>now\<close> is \<open>performance.now ()\<close>.\<close>

definition CameraPilot_useFrame :: "real \<Rightarrow> CameraPilot \<Rightarrow> CameraPilot" where
  "CameraPilot_useFrame now p =
     (if \<not> flying p then p
      else case (startPos p, endPos p, lookAt p) of
        (Some s, Some e, Some l) \<Rightarrow>
          (let t = (now - t0 p) / (duration p * 1000);
               ee = ease t;
               pos = lerpVectors s e ee;
               dist = distanceTo pos e;
               fire = (\<not> faded p \<and> dist < 0.65)
           in p\<lparr>camera_position := pos,
                faded := (faded p \<or> fire),
                arrivals := (if fire then arrivals p + 1 else arrivals p),
                flying := (if ee \<ge> 1 then False else flying p)\<rparr>)
      | _ \<Rightarrow> p)"

text \<open>A run of frames at the given clock readings, in order.\<close>

fun frames :: "real list \<Rightarrow> CameraPilot \<Rightarrow> CameraPilot" where
  "frames [] p = p"
| "frames (now # nows) p = frames nows (CameraPilot_useFrame now p)"

text \<open>The distance from the camera to the destination that the frame at \<open>now\<close>
  computes during the flight stored in \<open>p\<close>.\<close>

definition frame_dist :: "CameraPilot \<Rightarrow> real \<Rightarrow> real" where
  "frame_dist p now =
     distanceTo
       (lerpVectors (the (startPos p)) (the (endPos p))
          (ease ((now - t0 p) / (duration p * 1000))))
       (the (endPos p))"

text \<open>The refs as \<open>useRef\<close> initialises them, for a camera at \<open>cam\<close>.\<close>

definition CameraPilot_init :: "Vector3 \<Rightarrow> CameraPilot" where
  "CameraPilot_init cam =
     \<lparr>startPos = None, endPos = None, lookAt = None, t0 = 0, duration = 1.2,
      flying = False, faded = False, camera_position = cam,
      controls_enabled = Some True, arrivals = 0\<rparr>"

text \<open>
  A concrete flight: the camera of the \<open>Canvas\<close> at \<open>(0, 0, 4.2)\<close>, the target the
  surface point \<open>(0, 0, 1.5)\<close>, the effect run at clock reading 0.
\<close>

abbreviation demo_flight :: CameraPilot where
  "demo_flight \<equiv> CameraPilot_useEffect (Some (Vec3 0 0 1.5)) 0 (CameraPilot_init (Vec3 0 0 4.2))"

section \<open>Predicates used in the statements\<close>

text \<open>Two states hold the same flight: the refs that only the effect writes agree.\<close>

definition same_flight :: "CameraPilot \<Rightarrow> CameraPilot \<Rightarrow> bool" where
  "same_flight p q \<longleftrightarrow>
     startPos q = startPos p \<and> endPos q = endPos p \<and> lookAt q = lookAt p
     \<and> t0 q = t0 p \<and> duration q = duration p"

text \<open>A flight is in progress and \<open>onArrive\<close> has not fired in it.\<close>

definition in_flight :: "CameraPilot \<Rightarrow> bool" where
  "in_flight p \<longleftrightarrow>
     startPos p \<noteq> None \<and> endPos p \<noteq> None \<and> lookAt p \<noteq> None \<and> flying p \<and> \<not> faded p"

text \<open>Every channel of a colour lies in \<open>[0, 1]\<close>.\<close>

definition unit_channels :: "Vector3 \<Rightarrow> bool" where
  "unit_channels c \<longleftrightarrow>
     0 \<le> vx c \<and> vx c \<le> 1 \<and> 0 \<le> vy c \<and> vy c \<le> 1 \<and> 0 \<le> vz c \<and> vz c \<le> 1"

section \<open>Vectors\<close>

lemma Vec3_sel [simp]: "vx (Vec3 a b c) = a" "vy (Vec3 a b c) = b" "vz (Vec3 a b c) = c"
  by (simp_all add: Vec3_def)

lemma Vector3_eqI: "vx u = vx v \<Longrightarrow> vy u = vy v \<Longrightarrow> vz u = vz v \<Longrightarrow> u = (v::Vector3)"
  by simp

lemma normalize_v3_unit: "length_v3 v = 1 \<Longrightarrow> normalize_v3 v = v"
  by (simp add: normalize_v3_def divideScalar_def multiplyScalar_def Vec3_def)

lemma distanceTo_self [simp]: "distanceTo v v = 0"
  by (simp add: distanceTo_def distanceToSquared_def)

lemma lerpVectors_1 [simp]: "lerpVectors a b 1 = b"
  by (simp add: lerpVectors_def Vec3_def)

section \<open>Angle reduction\<close>

lemma floor_rem_bounds:
  fixes x y :: real
  assumes "0 < y"
  shows "0 \<le> x - y * of_int \<lfloor>x / y\<rfloor>" "x - y * of_int \<lfloor>x / y\<rfloor> < y"
proof -
  have "of_int \<lfloor>x / y\<rfloor> \<le> x / y" by simp
  then have "of_int \<lfloor>x / y\<rfloor> * y \<le> x" using assms by (simp only: pos_le_divide_eq)
  then show "0 \<le> x - y * of_int \<lfloor>x / y\<rfloor>" by (simp add: mult.commute)
  have "x / y < of_int \<lfloor>x / y\<rfloor> + 1" by linarith
  then have "x < (of_int \<lfloor>x / y\<rfloor> + 1) * y" using assms by (simp only: pos_divide_less_eq)
  then show "x - y * of_int \<lfloor>x / y\<rfloor> < y" by (simp add: algebra_simps)
qed

lemma floor_mod_alt:
  fixes x y :: real
  assumes "0 < y"
  shows "(if fmod x y < 0 then fmod x y + y else fmod x y) = x - y * of_int \<lfloor>x / y\<rfloor>"
proof (cases "0 \<le> x / y")
  case True
  then have "fmod x y = x - y * of_int \<lfloor>x / y\<rfloor>" by (simp add: fmod_def js_trunc_def)
  then show ?thesis using floor_rem_bounds(1)[OF assms, of x] by simp
next
  case False
  then have e: "fmod x y = x - y * of_int \<lceil>x / y\<rceil>" by (simp add: fmod_def js_trunc_def)
  show ?thesis
  proof (cases "x / y \<in> \<int>")
    case True
    then have "\<lceil>x / y\<rceil> = \<lfloor>x / y\<rfloor>" by (metis Ints_cases floor_of_int ceiling_of_int)
    then show ?thesis using e floor_rem_bounds(1)[OF assms, of x] by simp
  next
    case False
    then have "x / y \<noteq> of_int \<lfloor>x / y\<rfloor>" by (metis Ints_of_int)
    then have c: "\<lceil>x / y\<rceil> = \<lfloor>x / y\<rfloor> + 1" by (simp add: ceiling_altdef)
    have "fmod x y = (x - y * of_int \<lfloor>x / y\<rfloor>) - y" by (simp add: e c algebra_simps)
    then show ?thesis using floor_rem_bounds(2)[OF assms, of x] by simp
  qed
qed

lemma js_trunc_minus: "js_trunc (- q) = - js_trunc q"
  by (cases "q = 0") (auto simp: js_trunc_def ceiling_def)

lemma fmod_minus: "fmod (- x) y = - fmod x y"
  by (simp add: fmod_def js_trunc_minus algebra_simps)

lemma fmod_nonneg:
  fixes x y :: real
  assumes "0 < y" "0 \<le> x"
  shows "0 \<le> fmod x y" "fmod x y < y"
proof -
  have "0 \<le> x / y" using assms by simp
  then have "fmod x y = x - y * of_int \<lfloor>x / y\<rfloor>" by (simp add: fmod_def js_trunc_def)
  then show "0 \<le> fmod x y" "fmod x y < y" using floor_rem_bounds[OF assms(1), of x] by simp_all
qed

lemma fmod_nonpos:
  fixes x y :: real
  assumes "0 < y" "x \<le> 0"
  shows "- y < fmod x y" "fmod x y \<le> 0"
  using fmod_nonneg[OF assms(1), of "- x"] assms(2) by (simp_all add: fmod_minus)



subsection \<open>Rounding and the function n2\<close>

lemma rne_bounds: "\<lfloor>q\<rfloor> \<le> rne q" "rne q \<le> \<lceil>q\<rceil>"
proof -
  show "\<lfloor>q\<rfloor> \<le> rne q" by (simp add: rne_def Let_def)
  have "\<lceil>q\<rceil> = \<lfloor>q\<rfloor> + 1" if "q - of_int \<lfloor>q\<rfloor> \<noteq> 0"
    using that by (simp add: ceiling_altdef)
  moreover have "\<lfloor>q\<rfloor> \<le> \<lceil>q\<rceil>" by (rule floor_le_ceiling)
  ultimately show "rne q \<le> \<lceil>q\<rceil>" by (auto simp: rne_def Let_def)
qed

lemma rne_error: "\<bar>of_int (rne q) - q\<bar> \<le> 1 / 2"
proof -
  have "of_int \<lfloor>q\<rfloor> \<le> q" "q < of_int \<lfloor>q\<rfloor> + 1" by linarith+
  then show ?thesis by (auto simp: rne_def Let_def)
qed

lemma rne_of_int [simp]: "rne (of_int n) = n"
  by (simp add: rne_def)

lemma ulp_pos: "0 < ulp x"
  by (simp add: ulp_def)

lemma fl_error: "\<bar>fl x - x\<bar> \<le> ulp x / 2"
proof (cases "x = 0")
  case True
  then show ?thesis using ulp_pos[of x] by (simp add: fl_def)
next
  case False
  define u where "u = ulp x"
  have u: "0 < u" by (simp add: u_def ulp_pos)
  have "fl x - x = (of_int (rne (x / u)) - x / u) * u"
    using False u by (simp add: fl_def u_def[symmetric] algebra_simps)
  then have "\<bar>fl x - x\<bar> = \<bar>of_int (rne (x / u)) - x / u\<bar> * u"
    using u by (simp add: abs_mult)
  also have "\<dots> \<le> 1 / 2 * u" using rne_error[of "x / u"] u by (intro mult_right_mono) simp_all
  finally show ?thesis by (simp add: u_def)
qed

lemma fl_nonneg: "0 \<le> x \<Longrightarrow> 0 \<le> fl x"
proof -
  assume x: "0 \<le> x"
  have "0 \<le> x / ulp x" using x ulp_pos[of x] by simp
  then have "0 \<le> \<lfloor>x / ulp x\<rfloor>" by simp
  then have "0 \<le> rne (x / ulp x)" using rne_bounds(1)[of "x / ulp x"] by linarith
  then show ?thesis using ulp_pos[of x] by (simp add: fl_def)
qed

lemma ulp_binade:
  assumes "4 \<le> x" "x < 8"
  shows "ulp x = 1 / 2 ^ 50"
proof -
  have "\<lfloor>log 2 x\<rfloor> = 2"
    using assms by (subst floor_log_eq_powr_iff) simp_all
  then have "\<lfloor>log 2 \<bar>x\<bar>\<rfloor> = 2" using assms by simp
  then have "ulp x = 2 powr (- 50)" by (simp add: ulp_def)
  also have "\<dots> = 1 / 2 powr 50" by (simp add: powr_minus_divide)
  finally show ?thesis by simp
qed

lemma ulp_small:
  assumes "0 < x" "x < 8"
  shows "ulp x \<le> 1 / 2 ^ 50"
proof -
  have "log 2 x < 3" using assms by (simp add: log_less_iff)
  then have "\<lfloor>log 2 x\<rfloor> \<le> 2" by (simp add: floor_le_iff)
  then have "max \<lfloor>log 2 \<bar>x\<bar>\<rfloor> (- 1022) \<le> 2" using assms by simp
  then have "of_int (max \<lfloor>log 2 \<bar>x\<bar>\<rfloor> (- 1022)) - 52 \<le> (- 50 :: real)" by linarith
  then have "ulp x \<le> 2 powr (- 50)" unfolding ulp_def by (intro powr_mono) simp_all
  also have "\<dots> = 1 / 2 powr 50" by (simp add: powr_minus_divide)
  finally show ?thesis by simp
qed

lemma fl_binade:
  assumes "4 \<le> x" "x < 8"
  shows "fl x = of_int (rne (x * 2 ^ 50)) / 2 ^ 50"
proof -
  have "x \<noteq> 0" using assms by simp
  then show ?thesis by (simp add: fl_def ulp_binade[OF assms])
qed

lemma fl_exact:
  assumes "4 \<le> real_of_int n / 2 ^ 50" "real_of_int n / 2 ^ 50 < 8"
  shows "fl (of_int n / 2 ^ 50) = of_int n / 2 ^ 50"
proof -
  have "real_of_int n / 2 ^ 50 * 2 ^ 50 = of_int n" by simp
  then show ?thesis unfolding fl_binade[OF assms] by (simp only: rne_of_int)
qed

lemma TWO_PI_val: "TWO_PI = 884279719003555 / 2 ^ 47"
proof -
  define n :: int where "n = 7074237752028440"
  have x: "2 * Math_PI = real_of_int n / 2 ^ 50" by (simp add: Math_PI_def n_def)
  have "4 \<le> real_of_int n / 2 ^ 50" "real_of_int n / 2 ^ 50 < 8" by (simp_all add: n_def)
  then have "fl (real_of_int n / 2 ^ 50) = real_of_int n / 2 ^ 50" by (rule fl_exact)
  then have "TWO_PI = real_of_int n / 2 ^ 50" by (simp only: TWO_PI_def x)
  then show ?thesis by (simp add: n_def)
qed

lemma TWO_PI_bounds: "0 < TWO_PI" "4 < TWO_PI" "TWO_PI < 8"
  by (simp_all add: TWO_PI_val)

lemma fmod_small:
  fixes x y :: real
  assumes "0 < y" "- y < x" "x < y"
  shows "fmod x y = x"
proof -
  have q: "- 1 < x / y" "x / y < 1" using assms by (simp_all add: field_simps)
  have "js_trunc (x / y) = 0"
  proof (cases "0 \<le> x / y")
    case True
    then have "\<lfloor>x / y\<rfloor> = 0" using q by (intro floor_unique) simp_all
    then show ?thesis using True by (simp add: js_trunc_def)
  next
    case False
    then have "\<lceil>x / y\<rceil> = 0" using q by (intro ceiling_unique) simp_all
    then show ?thesis using False by (simp add: js_trunc_def)
  qed
  then show ?thesis by (simp add: fmod_def)
qed


lemma TWO_PI_grid: "TWO_PI * 2 ^ 50 = of_int 7074237752028440"
  by (simp add: TWO_PI_val)

lemma fl_le_TWO_PI:
  assumes "0 < m" "m < TWO_PI"
  shows "0 \<le> fl m" "fl m \<le> TWO_PI"
proof -
  show "0 \<le> fl m" using assms(1) by (intro fl_nonneg) simp
  show "fl m \<le> TWO_PI"
  proof (cases "m < 4")
    case True
    have "ulp m \<le> 1 / 2 ^ 50" using assms(1) True by (intro ulp_small) simp_all
    then have "fl m \<le> m + 1 / 2 ^ 51" using fl_error[of m] by (simp; linarith)
    moreover have "(4::real) + 1 / 2 ^ 51 \<le> 5" by simp
    ultimately show ?thesis using True TWO_PI_bounds(2) by (simp add: TWO_PI_val; linarith)
  next
    case False
    then have b: "4 \<le> m" "m < 8" using assms(2) TWO_PI_bounds(3) by simp_all
    have "m * 2 ^ 50 < TWO_PI * 2 ^ 50" using assms(2) by simp
    then have "m * 2 ^ 50 \<le> of_int 7074237752028440" by (simp only: TWO_PI_grid)
    then have "\<lceil>m * 2 ^ 50\<rceil> \<le> 7074237752028440" by (simp only: ceiling_le_iff)
    then have "rne (m * 2 ^ 50) \<le> 7074237752028440"
      using rne_bounds(2)[of "m * 2 ^ 50"] by linarith
    then have "real_of_int (rne (m * 2 ^ 50)) \<le> of_int 7074237752028440" by (simp only: of_int_le_iff)
    then have "real_of_int (rne (m * 2 ^ 50)) / 2 ^ 50 \<le> of_int 7074237752028440 / 2 ^ 50"
      by (intro divide_right_mono) simp_all
    also have "\<dots> = TWO_PI" by (simp add: TWO_PI_val)
    finally show ?thesis by (simp only: fl_binade[OF b])
  qed
qed

lemma fl_below_TWO_PI:
  assumes "0 < m" "m \<le> TWO_PI - 1 / 2 ^ 50"
  shows "fl m < TWO_PI"
proof (cases "m < 4")
  case True
  have "ulp m \<le> 1 / 2 ^ 50" using assms(1) True by (intro ulp_small) simp_all
  then have "fl m \<le> m + 1 / 2 ^ 51" using fl_error[of m] by (simp; linarith)
  moreover have "(4::real) + 1 / 2 ^ 51 \<le> 5" by simp
  ultimately show ?thesis using True by (simp add: TWO_PI_val; linarith)
next
  case False
  have "TWO_PI - 1 / 2 ^ 50 < 8" using TWO_PI_bounds(3) by simp
  then have b: "4 \<le> m" "m < 8" using False assms(2) by simp_all
  have "m * 2 ^ 50 \<le> (TWO_PI - 1 / 2 ^ 50) * 2 ^ 50" using assms(2) by simp
  also have "\<dots> = TWO_PI * 2 ^ 50 - 1" by (simp add: algebra_simps)
  also have "\<dots> = of_int 7074237752028439" by (simp only: TWO_PI_grid)
  finally have "\<lceil>m * 2 ^ 50\<rceil> \<le> 7074237752028439" by (simp only: ceiling_le_iff)
  then have "rne (m * 2 ^ 50) \<le> 7074237752028439"
    using rne_bounds(2)[of "m * 2 ^ 50"] by linarith
  then have "real_of_int (rne (m * 2 ^ 50)) \<le> of_int 7074237752028439" by (simp only: of_int_le_iff)
  then have "real_of_int (rne (m * 2 ^ 50)) / 2 ^ 50 \<le> of_int 7074237752028439 / 2 ^ 50"
    by (intro divide_right_mono) simp_all
  also have "\<dots> < TWO_PI" by (simp add: TWO_PI_val)
  finally show ?thesis by (simp only: fl_binade[OF b])
qed


lemma n2_nonneg_rem:
  assumes "0 \<le> fmod a TWO_PI"
  shows "n2 a = a - TWO_PI * of_int \<lfloor>a / TWO_PI\<rfloor>" "0 \<le> n2 a" "n2 a < TWO_PI"
proof -
  have e: "n2 a = fmod a TWO_PI" using assms by (simp add: n2_def Let_def)
  show m: "n2 a = a - TWO_PI * of_int \<lfloor>a / TWO_PI\<rfloor>"
    using floor_mod_alt[OF TWO_PI_bounds(1), of a] assms e by simp
  show "0 \<le> n2 a" using assms e by simp
  show "n2 a < TWO_PI" using floor_rem_bounds(2)[OF TWO_PI_bounds(1), of a] m by simp
qed

lemma n2_neg_rem:
  assumes "fmod a TWO_PI < 0"
  shows "n2 a = fl (a - TWO_PI * of_int \<lfloor>a / TWO_PI\<rfloor>)"
    "a - TWO_PI * of_int \<lfloor>a / TWO_PI\<rfloor> = fmod a TWO_PI + TWO_PI"
    "\<bar>n2 a - (a - TWO_PI * of_int \<lfloor>a / TWO_PI\<rfloor>)\<bar> \<le> 1 / 2 ^ 51"
    "0 \<le> n2 a" "n2 a \<le> TWO_PI"
proof -
  define m where "m = a - TWO_PI * of_int \<lfloor>a / TWO_PI\<rfloor>"
  have m: "m = fmod a TWO_PI + TWO_PI"
    using floor_mod_alt[OF TWO_PI_bounds(1), of a] assms by (simp add: m_def)
  have e: "n2 a = fl m" using assms by (simp add: n2_def Let_def m)
  have r: "0 \<le> m" "m < TWO_PI" using floor_rem_bounds[OF TWO_PI_bounds(1), of a] by (simp_all add: m_def)
  have pos: "0 < m"
  proof (rule ccontr)
    assume "\<not> 0 < m"
    then have "m = 0" using r(1) by simp
    then have "fmod a TWO_PI = - TWO_PI" using m by simp
    moreover have "- TWO_PI < fmod a TWO_PI"
    proof (cases "0 \<le> a")
      case True
      then show ?thesis using fmod_nonneg(1)[OF TWO_PI_bounds(1) True] TWO_PI_bounds(1) by linarith
    next
      case False
      then show ?thesis using fmod_nonpos(1)[OF TWO_PI_bounds(1), of a] by simp
    qed
    ultimately show False by simp
  qed
  show "n2 a = fl (a - TWO_PI * of_int \<lfloor>a / TWO_PI\<rfloor>)" using e by (simp only: m_def)
  show "a - TWO_PI * of_int \<lfloor>a / TWO_PI\<rfloor> = fmod a TWO_PI + TWO_PI" using m by (simp only: m_def)
  have "ulp m \<le> 1 / 2 ^ 50" using pos r(2) TWO_PI_bounds(3) by (intro ulp_small) simp_all
  then have "\<bar>fl m - m\<bar> \<le> 1 / 2 ^ 51" using fl_error[of m] by (simp; linarith)
  then show "\<bar>n2 a - (a - TWO_PI * of_int \<lfloor>a / TWO_PI\<rfloor>)\<bar> \<le> 1 / 2 ^ 51"
    by (simp only: e m_def)
  show "0 \<le> n2 a" "n2 a \<le> TWO_PI" using fl_le_TWO_PI[OF pos r(2)] by (simp_all only: e)
qed

lemma n2_below:
  assumes "fmod a TWO_PI \<le> - (1 / 2 ^ 50)"
  shows "n2 a < TWO_PI"
proof -
  have neg: "fmod a TWO_PI < 0" using assms by (simp; linarith)
  define m where "m = a - TWO_PI * of_int \<lfloor>a / TWO_PI\<rfloor>"
  have m: "m = fmod a TWO_PI + TWO_PI" using n2_neg_rem(2)[OF neg] by (simp only: m_def)
  have "0 \<le> m" using floor_rem_bounds(1)[OF TWO_PI_bounds(1), of a] by (simp add: m_def)
  moreover have "m \<noteq> 0"
  proof
    assume "m = 0"
    then have "fmod a TWO_PI = - TWO_PI" using m by simp
    moreover have "- TWO_PI < fmod a TWO_PI"
    proof (cases "0 \<le> a")
      case True
      then show ?thesis using fmod_nonneg(1)[OF TWO_PI_bounds(1) True] TWO_PI_bounds(1) by linarith
    next
      case False
      then show ?thesis using fmod_nonpos(1)[OF TWO_PI_bounds(1), of a] by simp
    qed
    ultimately show False by simp
  qed
  ultimately have pos: "0 < m" by simp
  have "m \<le> TWO_PI - 1 / 2 ^ 50" using assms m by (simp; linarith)
  then have "fl m < TWO_PI" by (rule fl_below_TWO_PI[OF pos])
  then show ?thesis using n2_neg_rem(1)[OF neg] by (simp only: m_def)
qed




section \<open>The sun direction\<close>

lemma sun_raw_length:
  "length_v3 (Vec3 (cos a * cos h) (sin a) (cos a * sin h)) = 1"
proof -
  have h: "cos h * cos h + sin h * sin h = 1" and a: "cos a * cos a + sin a * sin a = 1"
    by simp_all
  have "cos a * cos h * (cos a * cos h) + sin a * sin a + cos a * sin h * (cos a * sin h)
        = cos a * cos a * (cos h * cos h + sin h * sin h) + sin a * sin a"
    by (simp only: distrib_left mult_ac add_ac)
  also have "\<dots> = 1" by (simp only: h mult_1_right a)
  finally show ?thesis by (simp add: length_v3_def)
qed


lemma sunVec_EarthFixed_length: "length_v3 (sunVec_EarthFixed d) = 1"
  by (simp add: sunVec_EarthFixed_def Let_def normalize_v3_unit sun_raw_length)

text \<open>
  Claim C1. For every instant \<open>d\<close> the vector \<open>sunVec_EarthFixed d\<close> is a unit vector:
  its Euclidean norm is 1 (exactly, on reals).
\<close>

theorem sunVec_EarthFixed_unit: "length_v3 (sunVec_EarthFixed d) = 1"
  by (rule sunVec_EarthFixed_length)

theorem sunVec_EarthFixed_unit_witness: "length_v3 (sunVec_EarthFixed 1710936000000) = 1"
  by (rule sunVec_EarthFixed_unit)

section \<open>Day/night blend\<close>

lemma glsl_clamp_unit: "0 \<le> glsl_clamp v 0 1" "glsl_clamp v 0 1 \<le> 1"
  by (simp_all add: glsl_clamp_def)

lemma glsl_clamp_mono: "u \<le> v \<Longrightarrow> glsl_clamp u 0 1 \<le> glsl_clamp v 0 1"
  by (simp add: glsl_clamp_def min_def max_def)

lemma hermite_mono:
  fixes a b :: real
  assumes "0 \<le> a" "a \<le> b" "b \<le> 1"
  shows "a * a * (3 - 2 * a) \<le> b * b * (3 - 2 * b)"
proof -
  have f: "b * b * (3 - 2 * b) - a * a * (3 - 2 * a)
        = (b - a) * (2 * (a * (1 - a)) + 2 * (b * (1 - b)) + a * (1 - b) + b * (1 - a))"
    by (simp add: algebra_simps)
  have "0 \<le> a * (1 - a)" "0 \<le> b * (1 - b)" "0 \<le> a * (1 - b)" "0 \<le> b * (1 - a)"
    using assms by simp_all
  then have "0 \<le> 2 * (a * (1 - a)) + 2 * (b * (1 - b)) + a * (1 - b) + b * (1 - a)"
    by linarith
  then have "0 \<le> (b - a) * (2 * (a * (1 - a)) + 2 * (b * (1 - b)) + a * (1 - b) + b * (1 - a))"
    using assms(2) by (intro mult_nonneg_nonneg) simp_all
  then show ?thesis using f by linarith
qed

lemma hermite_unit:
  fixes a :: real
  assumes "0 \<le> a" "a \<le> 1"
  shows "0 \<le> a * a * (3 - 2 * a)" "a * a * (3 - 2 * a) \<le> 1"
proof -
  show "0 \<le> a * a * (3 - 2 * a)" using assms by simp
  show "a * a * (3 - 2 * a) \<le> 1" using hermite_mono[of a 1] assms by simp
qed

lemma dayAmt_unit: "0 \<le> dayAmt k" "dayAmt k \<le> 1"
  using hermite_unit[OF glsl_clamp_unit] by (simp_all add: dayAmt_def smoothstep_def Let_def)

lemma dayAmt_mono: "k1 \<le> k2 \<Longrightarrow> dayAmt k1 \<le> dayAmt k2"
  unfolding dayAmt_def smoothstep_def Let_def
  by (intro hermite_mono glsl_clamp_unit glsl_clamp_mono) (simp add: divide_right_mono)

lemma dayAmt_continuous: "continuous_on UNIV dayAmt"
  unfolding dayAmt_def smoothstep_def Let_def glsl_clamp_def
  by (intro continuous_intros) simp_all


text \<open>
  Claim C8. \<open>dayAmt\<close>, the shader's \<open>smoothstep (-0.15, 0.15, k)\<close>, is 1 at \<open>k = 1\<close>
  and 0 at \<open>k = -1\<close>, it is monotonically non-decreasing in \<open>k\<close>, and it is continuous
  everywhere, in particular on the band \<open>[-0.15, 0.15]\<close> and on \<open>[-1, 1]\<close>.
\<close>

theorem dayAmt_profile:
  "dayAmt 1 = 1 \<and> dayAmt (- 1) = 0
   \<and> (\<forall>k1 k2. k1 \<le> k2 \<longrightarrow> dayAmt k1 \<le> dayAmt k2)
   \<and> continuous_on UNIV dayAmt \<and> continuous_on {- 0.15 .. 0.15} dayAmt"
proof -
  have "dayAmt 1 = 1" "dayAmt (- 1) = 0"
    by (simp_all add: dayAmt_def smoothstep_def glsl_clamp_def)
  moreover have "continuous_on {- 0.15 .. 0.15} dayAmt"
    using dayAmt_continuous by (rule continuous_on_subset) simp
  ultimately show ?thesis using dayAmt_mono dayAmt_continuous by blast
qed


theorem dayAmt_profile_witness:
  "(- 0.1 :: real) \<le> 0.1 \<and> dayAmt (- 0.1) \<le> dayAmt 0.1"
proof -
  have h: "(- 0.1 :: real) \<le> 0.1" by simp
  have "\<forall>k1 k2. k1 \<le> k2 \<longrightarrow> dayAmt k1 \<le> dayAmt k2" using dayAmt_profile by blast
  with h show ?thesis by blast
qed

lemma convex_unit:
  fixes a b w :: real
  assumes "0 \<le> w" "w \<le> 1" "0 \<le> a" "a \<le> 1" "0 \<le> b" "b \<le> 1"
  shows "0 \<le> a * w + b * (1 - w)" "a * w + b * (1 - w) \<le> 1"
proof -
  show "0 \<le> a * w + b * (1 - w)" using assms by simp
  have "a * w \<le> 1 * w" "b * (1 - w) \<le> 1 * (1 - w)"
    using assms by (intro mult_right_mono; simp)+
  then show "a * w + b * (1 - w) \<le> 1" by simp
qed


text \<open>
  Claim C10. With the shipped ambient value \<open>AMBIENT = 0.1\<close> the weight of the day
  texel, \<open>AMBIENT + dayAmt k * (1 - AMBIENT)\<close>, and the weight of the night texel,
  \<open>(1 - dayAmt k) * 0.9\<close>, add up to 1 for every \<open>k\<close>; the colour the shader returns is
  the convex combination of the two texels with these weights, and each of its channels
  is in \<open>[0, 1]\<close> when the channels of both texels are.
\<close>

theorem earthFS_convex:
  "(let k = dot (glsl_normalize vNormalW) (glsl_normalize uSunDir);
        w = AMBIENT + dayAmt k * (1 - AMBIENT);
        color = fst (earthFS dayCol nightCol vNormalW uSunDir AMBIENT gain)
    in w + (1 - dayAmt k) * 0.9 = 1 \<and> 0 \<le> w \<and> w \<le> 1
       \<and> color = add_v3 (multiplyScalar dayCol w) (multiplyScalar nightCol (1 - w))
       \<and> (unit_channels dayCol \<and> unit_channels nightCol \<longrightarrow> unit_channels color))"
proof -
  define k where "k = dot (glsl_normalize vNormalW) (glsl_normalize uSunDir)"
  define w where "w = AMBIENT + dayAmt k * (1 - AMBIENT)"
  have s: "w + (1 - dayAmt k) * 0.9 = 1" by (simp add: w_def AMBIENT_def field_simps)
  have w: "0 \<le> w" "w \<le> 1" using dayAmt_unit[of k] by (simp_all add: w_def AMBIENT_def)
  have n: "(1.0 - dayAmt k) * 0.9 = 1 - w" by (simp add: w_def AMBIENT_def field_simps)
  have c: "fst (earthFS dayCol nightCol vNormalW uSunDir AMBIENT gain)
           = add_v3 (multiplyScalar dayCol w) (multiplyScalar nightCol (1 - w))"
    unfolding earthFS_def Let_def fst_conv k_def[symmetric] n
    by (simp add: w_def)
  have u: "unit_channels (add_v3 (multiplyScalar dayCol w) (multiplyScalar nightCol (1 - w)))"
    if "unit_channels dayCol" "unit_channels nightCol"
    using that convex_unit[OF w] by (simp add: unit_channels_def add_v3_def multiplyScalar_def)
  show ?thesis using s w c u by (simp add: Let_def k_def[symmetric] w_def[symmetric])
qed


theorem earthFS_convex_witness:
  "unit_channels (Vec3 0.2 0.4 0.6) \<and> unit_channels (Vec3 1 0.9 0.5)
   \<and> unit_channels (fst (earthFS (Vec3 0.2 0.4 0.6) (Vec3 1 0.9 0.5) (Vec3 0 1 0) SUN_W AMBIENT 1))"
proof -
  have h: "unit_channels (Vec3 0.2 0.4 0.6) \<and> unit_channels (Vec3 1 0.9 0.5)"
    by (simp add: unit_channels_def)
  have "unit_channels (Vec3 0.2 0.4 0.6) \<and> unit_channels (Vec3 1 0.9 0.5) \<longrightarrow>
    unit_channels (fst (earthFS (Vec3 0.2 0.4 0.6) (Vec3 1 0.9 0.5) (Vec3 0 1 0) SUN_W AMBIENT 1))"
    using earthFS_convex[of "Vec3 0 1 0" SUN_W "Vec3 0.2 0.4 0.6" "Vec3 1 0.9 0.5" 1]
    unfolding Let_def by blast
  with h show ?thesis by blast
qed

section \<open>Markers\<close>

lemma sphere_sq:
  fixes r a h :: real
  shows "r * cos a * cos h * (r * cos a * cos h) + r * sin a * (r * sin a)
     + r * cos a * sin h * (r * cos a * sin h) = r * r"
proof -
  have h: "cos h * cos h + sin h * sin h = 1" and a: "cos a * cos a + sin a * sin a = 1"
    by simp_all
  have "r * cos a * cos h * (r * cos a * cos h) + r * sin a * (r * sin a)
     + r * cos a * sin h * (r * cos a * sin h)
     = r * r * (cos a * cos a * (cos h * cos h + sin h * sin h) + sin a * sin a)"
    by (simp only: distrib_left mult_ac add_ac)
  also have "\<dots> = r * r" by (simp only: h mult_1_right a)
  finally show ?thesis .
qed

lemma latLonToVec3_length: "length_v3 (latLonToVec3 lat lon r) = \<bar>r\<bar>"
  by (simp add: latLonToVec3_def Let_def length_v3_def sphere_sq)

lemma atan2_polar:
  assumes "0 < c" "- (pi / 2) < a" "a < pi / 2"
  shows "atan2 (c * sin a) (c * cos a) = a"
proof -
  have "0 < cos a" using assms by (simp add: cos_gt_zero_pi)
  then have "0 < c * cos a" using assms by simp
  moreover have "c * sin a / (c * cos a) = tan a" using assms by (simp add: tan_def)
  ultimately show ?thesis using assms by (simp add: atan2_def arctan_tan)
qed

lemma latLonToVec3_east:
  "- vz (latLonToVec3 a b r) = r * cos (degToRad a) * sin (degToRad b)"
  "vx (latLonToVec3 a b r) = r * cos (degToRad a) * cos (degToRad b)"
  by (simp_all add: latLonToVec3_def Let_def)

lemma delhi_longitude:
  "radToDeg (atan2 (- vz (latLonToVec3 28.6139 77.2088 1.517)) (vx (latLonToVec3 28.6139 77.2088 1.517)))
     = 77.2088"
proof -
  let ?lat = "degToRad 28.6139" and ?lon = "degToRad 77.2088"
  have lat: "- (pi / 2) < ?lat" "?lat < pi / 2" and lon: "- (pi / 2) < ?lon" "?lon < pi / 2"
    by (simp_all add: degToRad_def)
  have c: "0 < 1.517 * cos ?lat" using lat by (simp add: cos_gt_zero_pi)
  show ?thesis
    unfolding latLonToVec3_east atan2_polar[OF c lon]
    by (simp add: radToDeg_def degToRad_def)
qed


text \<open>
  Claim C6. For every latitude, longitude and radius \<open>r \<ge> 0\<close> the vector
  \<open>latLonToVec3 lat lon r\<close> has norm \<open>r\<close>; \<open>latLonToVec3 0 0 r\<close> and
  \<open>latLonToVec3 0 180 r\<close> are opposite points with \<open>y = 0\<close>; and for the Delhi marker
  at radius 1.517 the longitude recovered by \<open>atan2 (-z, x)\<close> is 77.2088 degrees.
\<close>

theorem latLonToVec3_props:
  "0 \<le> r \<Longrightarrow> length_v3 (latLonToVec3 lat lon r) = r
   \<and> latLonToVec3 0 180 r = negate (latLonToVec3 0 0 r)
   \<and> vy (latLonToVec3 0 0 r) = 0 \<and> vy (latLonToVec3 0 180 r) = 0
   \<and> radToDeg (atan2 (- vz (latLonToVec3 28.6139 77.2088 1.517))
                       (vx (latLonToVec3 28.6139 77.2088 1.517))) = 77.2088"
  using delhi_longitude
  by (simp add: latLonToVec3_length)
     (simp add: latLonToVec3_def Let_def degToRad_def negate_def Vec3_def)


theorem latLonToVec3_props_witness:
  "(0::real) \<le> 1.517 \<and> length_v3 (latLonToVec3 28.6139 77.2088 1.517) = 1.517"
  using latLonToVec3_props[where r = "1.517" and lat = "28.6139" and lon = "77.2088"] by simp

section \<open>Camera Pilot\<close>

text \<open>
  Claim C7. When a flight starts, the duration stored is
  \<open>clamp (0.7 + 0.35 * distance (start, end), 1.0, 3.0)\<close>, where start is the position of
  the camera and end the point above the target; for distance 0 this is 1.0, and for
  every distance of at least \<open>46 / 7\<close> it is 3.0.
\<close>

theorem duration_clamp:
  "(let p' = CameraPilot_useEffect (Some tp) now p in
      startPos p' = Some (camera_position p)
    \<and> endPos p' = Some (multiplyScalar (normalize_v3 tp) (GLOBE_RADIUS + 0.09))
    \<and> duration p' = clamp (0.7 + 0.35 * distanceTo (the (startPos p')) (the (endPos p'))) 1.0 3.0)
   \<and> clamp (0.7 + 0.35 * 0) 1.0 3.0 = 1.0
   \<and> (\<forall>dist \<ge> 46 / 7. clamp (0.7 + 0.35 * dist) 1.0 3.0 = 3.0)"
  by (auto simp add: CameraPilot_useEffect_def Let_def clamp_def mult.commute)

theorem duration_clamp_witness:
  "(46 / 7 :: real) \<le> 7 \<and> clamp (0.7 + 0.35 * 7) 1.0 3.0 = 3.0"
proof -
  have h: "(46 / 7 :: real) \<le> 7" by simp
  have "\<forall>dist \<ge> 46 / 7. clamp (0.7 + 0.35 * dist) 1.0 3.0 = 3.0"
    using duration_clamp[of "Vec3 0 0 1.5" 0 "CameraPilot_init (Vec3 0 0 4.2)"] by blast
  with h show ?thesis by blast
qed

lemma ease_ge_1: "1 \<le> ease t \<Longrightarrow> ease t = 1"
proof -
  assume a: "1 \<le> ease t"
  show ?thesis
  proof (cases "t \<le> 0 \<or> 1 \<le> t")
    case True then show ?thesis using a by (auto simp: ease_def split: if_splits)
  next
    case False
    then have t: "0 < t" "t < 1" by auto
    have "1 - t * t * (3 - 2 * t) = (1 - t) * (1 - t) * (1 + 2 * t)" by (simp add: algebra_simps)
    moreover have "0 < (1 - t) * (1 - t) * (1 + 2 * t)" using t by simp
    ultimately have "t * t * (3 - 2 * t) < 1" by linarith
    then show ?thesis using a t by (simp add: ease_def)
  qed
qed

lemma useFrame_same_flight: "same_flight p (CameraPilot_useFrame now p)"
  by (simp add: CameraPilot_useFrame_def same_flight_def Let_def split: option.splits)

lemma frame_dist_same_flight: "same_flight p q \<Longrightarrow> frame_dist q now = frame_dist p now"
  by (simp add: frame_dist_def same_flight_def)

lemma useFrame_faded_stays:
  "faded p \<Longrightarrow> faded (CameraPilot_useFrame now p) \<and> arrivals (CameraPilot_useFrame now p) = arrivals p"
  by (simp add: CameraPilot_useFrame_def Let_def split: option.splits)

lemma frames_faded_stays:
  "faded p \<Longrightarrow> faded (frames nows p) \<and> arrivals (frames nows p) = arrivals p"
  by (induction nows arbitrary: p) (simp_all add: useFrame_faded_stays)

lemma useFrame_near:
  assumes "in_flight p" "frame_dist p now < 0.65"
  shows "faded (CameraPilot_useFrame now p)" "arrivals (CameraPilot_useFrame now p) = arrivals p + 1"
  using assms
  by (auto simp: in_flight_def CameraPilot_useFrame_def frame_dist_def Let_def)

lemma useFrame_far:
  assumes "in_flight p" "\<not> frame_dist p now < 0.65"
  shows "in_flight (CameraPilot_useFrame now p)" "arrivals (CameraPilot_useFrame now p) = arrivals p"
proof -
  obtain s e l where sel: "startPos p = Some s" "endPos p = Some e" "lookAt p = Some l"
    using assms(1) by (auto simp: in_flight_def)
  let ?t = "(now - t0 p) / (duration p * 1000)"
  have d: "\<not> distanceTo (lerpVectors s e (ease ?t)) e < 0.65"
    using assms(2) by (simp add: frame_dist_def sel)
  have "\<not> 1 \<le> ease ?t"
  proof
    assume "1 \<le> ease ?t"
    then have "ease ?t = 1" by (rule ease_ge_1)
    then show False using d by simp
  qed
  then show "in_flight (CameraPilot_useFrame now p)"
    "arrivals (CameraPilot_useFrame now p) = arrivals p"
    using assms(1) d by (simp_all add: in_flight_def CameraPilot_useFrame_def Let_def sel)
qed

lemma frames_far:
  assumes "in_flight p" "\<forall>m \<in> set nows. \<not> frame_dist p m < 0.65"
  shows "in_flight (frames nows p) \<and> arrivals (frames nows p) = arrivals p
         \<and> same_flight p (frames nows p)"
  using assms
proof (induction nows arbitrary: p)
  case Nil
  then show ?case by (simp add: same_flight_def)
next
  case (Cons n nows)
  let ?q = "CameraPilot_useFrame n p"
  have q: "in_flight ?q" "arrivals ?q = arrivals p"
    using useFrame_far[of p n] Cons.prems by simp_all
  have sf: "same_flight p ?q" by (rule useFrame_same_flight)
  have "\<forall>m \<in> set nows. \<not> frame_dist ?q m < 0.65"
    using Cons.prems(2) frame_dist_same_flight[OF sf] by simp
  from Cons.IH[OF q(1) this] q(2) sf show ?case by (simp add: same_flight_def)
qed


lemma frames_append: "frames (xs @ ys) p = frames ys (frames xs p)"
  by (induction xs arbitrary: p) simp_all

lemma clamp_bounds: "lo \<le> hi \<Longrightarrow> lo \<le> clamp v lo hi \<and> clamp v lo hi \<le> hi"
  by (simp add: clamp_def)

lemma useEffect_in_flight:
  "in_flight (CameraPilot_useEffect (Some tp) now p)"
  "arrivals (CameraPilot_useEffect (Some tp) now p) = arrivals p"
  "t0 (CameraPilot_useEffect (Some tp) now p) = now"
  "1 \<le> duration (CameraPilot_useEffect (Some tp) now p)"
  "duration (CameraPilot_useEffect (Some tp) now p) \<le> 3"
  using clamp_bounds[of 1 3]
  by (simp_all add: CameraPilot_useEffect_def in_flight_def Let_def)

lemma frames_first_near:
  assumes "in_flight p" "\<forall>n \<in> set pre. \<not> frame_dist p n < 0.65" "frame_dist p m < 0.65"
  shows "arrivals (frames pre p) = arrivals p"
    "arrivals (frames (pre @ [m]) p) = arrivals p + 1"
    "arrivals (frames (pre @ m # post) p) = arrivals p + 1"
proof -
  let ?q = "frames pre p"
  have q: "in_flight ?q" "arrivals ?q = arrivals p" "same_flight p ?q"
    using frames_far[OF assms(1,2)] by simp_all
  show "arrivals ?q = arrivals p" by (rule q(2))
  have "frame_dist ?q m < 0.65" using assms(3) frame_dist_same_flight[OF q(3)] by simp
  from useFrame_near[OF q(1) this]
  have r: "faded (CameraPilot_useFrame m ?q)" "arrivals (CameraPilot_useFrame m ?q) = arrivals p + 1"
    using q(2) by simp_all
  show "arrivals (frames (pre @ [m]) p) = arrivals p + 1"
    using r(2) by (simp add: frames_append)
  show "arrivals (frames (pre @ m # post) p) = arrivals p + 1"
    using frames_faded_stays[OF r(1), of post] r(2) by (simp add: frames_append)
qed

lemma frames_at_most_once:
  assumes "in_flight p"
  shows "arrivals (frames nows p) \<le> arrivals p + 1"
proof (cases "\<exists>m \<in> set nows. frame_dist p m < 0.65")
  case True
  then obtain pre m post where
    "nows = pre @ m # post" "frame_dist p m < 0.65" "\<forall>n \<in> set pre. \<not> frame_dist p n < 0.65"
    by (auto dest!: split_list_first_prop)
  then show ?thesis using frames_first_near(3)[OF assms, of pre m post] by simp
next
  case False
  then show ?thesis using frames_far[OF assms, of nows] by simp
qed

lemma frame_dist_done:
  assumes "endPos p \<noteq> None" "0 < duration p" "duration p * 1000 \<le> m - t0 p"
  shows "frame_dist p m = 0"
proof -
  have "1 \<le> (m - t0 p) / (duration p * 1000)" using assms(2,3) by simp
  then have "ease ((m - t0 p) / (duration p * 1000)) = 1" by (simp add: ease_def)
  then show ?thesis by (simp add: frame_dist_def)
qed

lemma frames_completed:
  assumes "in_flight p" "0 < duration p" "\<exists>m \<in> set nows. duration p * 1000 \<le> m - t0 p"
  shows "arrivals (frames nows p) = arrivals p + 1"
proof -
  from assms(3) obtain m0 where "m0 \<in> set nows" "duration p * 1000 \<le> m0 - t0 p" by blast
  then have "frame_dist p m0 = 0" using frame_dist_done[of p m0] assms(1,2) by (simp add: in_flight_def)
  then have "\<exists>m \<in> set nows. frame_dist p m < 0.65" using \<open>m0 \<in> set nows\<close> by force
  then obtain pre m post where
    "nows = pre @ m # post" "frame_dist p m < 0.65" "\<forall>n \<in> set pre. \<not> frame_dist p n < 0.65"
    by (auto dest!: split_list_first_prop)
  then show ?thesis using frames_first_near(3)[OF assms(1), of pre m post] by simp
qed


lemma length_v3_axis: "length_v3 (Vec3 0 0 c) = \<bar>c\<bar>"
  by (simp add: length_v3_def)

lemma distanceTo_axis: "distanceTo (Vec3 0 0 a) (Vec3 0 0 b) = \<bar>a - b\<bar>"
  by (simp add: distanceTo_def distanceToSquared_def Let_def)

lemma multiplyScalar_axis: "multiplyScalar (Vec3 0 0 a) s = Vec3 0 0 (a * s)"
  by (simp add: multiplyScalar_def)

lemma lerpVectors_axis: "lerpVectors (Vec3 0 0 a) (Vec3 0 0 b) e = Vec3 0 0 (a + (b - a) * e)"
  by (simp add: lerpVectors_def)

lemma demo_flight_refs:
  "startPos demo_flight = Some (Vec3 0 0 4.2)"
  "endPos demo_flight = Some (Vec3 0 0 1.59)"
  "t0 demo_flight = 0"
  "duration demo_flight = 1.6135"
proof -
  have n: "normalize_v3 (Vec3 0 0 1.5) = Vec3 0 0 1"
    by (simp add: normalize_v3_def divideScalar_def length_v3_axis multiplyScalar_axis)
  have e: "multiplyScalar (normalize_v3 (Vec3 0 0 1.5)) (GLOBE_RADIUS + 0.09) = Vec3 0 0 1.59"
    using n by (simp add: multiplyScalar_axis GLOBE_RADIUS_def)
  have d: "distanceTo (Vec3 0 0 4.2) (Vec3 0 0 1.59) = 2.61"
    by (simp add: distanceTo_axis)
  show "startPos demo_flight = Some (Vec3 0 0 4.2)" "t0 demo_flight = 0"
    by (simp_all add: CameraPilot_useEffect_def CameraPilot_init_def Let_def)
  show "endPos demo_flight = Some (Vec3 0 0 1.59)"
    using e by (simp add: CameraPilot_useEffect_def Let_def)
  show "duration demo_flight = 1.6135"
    using e d by (simp add: CameraPilot_useEffect_def Let_def CameraPilot_init_def clamp_def)
qed

lemma frame_dist_axis:
  assumes "startPos p = Some (Vec3 0 0 a)" "endPos p = Some (Vec3 0 0 b)"
  shows "frame_dist p m = \<bar>(a - b) * (1 - ease ((m - t0 p) / (duration p * 1000)))\<bar>"
proof -
  have "a + (b - a) * e - b = (a - b) * (1 - e)" for e by (simp add: algebra_simps)
  then show ?thesis
    by (simp add: frame_dist_def assms lerpVectors_axis distanceTo_axis)
qed

lemma demo_flight_dist:
  "frame_dist demo_flight m = \<bar>(4.2 - 1.59) * (1 - ease ((m - 0) / (1.6135 * 1000)))\<bar>"
  using frame_dist_axis[OF demo_flight_refs(1,2), of m] unfolding demo_flight_refs(3,4) .

lemma demo_flight_far: "\<not> frame_dist demo_flight 100 < 0.65"
  using demo_flight_dist[of 100] by (simp add: ease_def)

lemma demo_flight_near: "frame_dist demo_flight 1500 < 0.65"
  using demo_flight_dist[of 1500] by (simp add: ease_def)

text \<open>
  Claim C3, as stated, fails for a flight that a new target point ends early: the
  flight below starts at clock reading 0, sees one frame at 100 ms, when the camera is
  still 2.58 away from the destination, and is replaced by a new flight at 200 ms;
  \<open>onArrive\<close> has not fired in it.
\<close>

theorem cancelled_flight_counterexample:
  "arrivals (CameraPilot_useEffect (Some (Vec3 1.5 0 0)) 200 (frames [100] demo_flight))
     \<noteq> arrivals (CameraPilot_init (Vec3 0 0 4.2)) + 1"
proof -
  have "arrivals (frames [100] demo_flight) = arrivals demo_flight"
    using frames_far[OF useEffect_in_flight(1), of "[100]"] demo_flight_far by simp
  then show ?thesis
    by (simp add: useEffect_in_flight(2))
qed


text \<open>
  Claim C3, amended. In a flight, from the effect that sets the target on, \<open>onArrive\<close>
  fires at most once over any run of frames. It does not fire while every frame sees the
  camera at distance 0.65 or more from the destination; it fires on the first frame that
  sees a distance below 0.65, whatever the time parameter is then, and on no later
  frame; and it has fired exactly once when some frame of the run is at or past the end
  of the flight.
\<close>

theorem onArrive_once:
  "(let p0 = CameraPilot_useEffect (Some tp) now p in
      arrivals (frames nows p0) \<le> arrivals p + 1
    \<and> ((\<forall>n \<in> set pre. \<not> frame_dist p0 n < 0.65) \<longrightarrow> arrivals (frames pre p0) = arrivals p)
    \<and> ((\<forall>n \<in> set pre. \<not> frame_dist p0 n < 0.65) \<and> frame_dist p0 m < 0.65 \<longrightarrow>
          arrivals (frames (pre @ [m]) p0) = arrivals p + 1
        \<and> arrivals (frames (pre @ m # post) p0) = arrivals p + 1)
    \<and> ((\<exists>n \<in> set nows. duration p0 * 1000 \<le> n - now) \<longrightarrow>
          arrivals (frames nows p0) = arrivals p + 1))"
proof -
  let ?p0 = "CameraPilot_useEffect (Some tp) now p"
  note f = useEffect_in_flight[of tp now p]
  have d: "0 < duration ?p0" using f(4) by linarith
  have "arrivals (frames nows ?p0) \<le> arrivals p + 1"
    using frames_at_most_once[OF f(1), of nows] f(2) by simp
  moreover have "arrivals (frames pre ?p0) = arrivals p"
    if "\<forall>n \<in> set pre. \<not> frame_dist ?p0 n < 0.65"
    using frames_far[OF f(1) that] f(2) by simp
  moreover have "arrivals (frames (pre @ [m]) ?p0) = arrivals p + 1
        \<and> arrivals (frames (pre @ m # post) ?p0) = arrivals p + 1"
    if "\<forall>n \<in> set pre. \<not> frame_dist ?p0 n < 0.65" "frame_dist ?p0 m < 0.65"
    using frames_first_near(2)[OF f(1) that] frames_first_near(3)[OF f(1) that, of post] f(2)
    by simp
  moreover have "arrivals (frames nows ?p0) = arrivals p + 1"
    if "\<exists>n \<in> set nows. duration ?p0 * 1000 \<le> n - now"
    using frames_completed[OF f(1) d, of nows] that f(2,3) by simp
  ultimately show ?thesis unfolding Let_def by blast
qed

theorem onArrive_once_witness:
  "\<not> frame_dist demo_flight 100 < 0.65
   \<and> frame_dist demo_flight 1500 < 0.65
   \<and> duration demo_flight * 1000 \<le> 1700 - 0
   \<and> 1500 - 0 < duration demo_flight * 1000
   \<and> arrivals (frames [100] demo_flight) = 0
   \<and> arrivals (frames ([100] @ [1500]) demo_flight) = 1
   \<and> arrivals (frames ([100] @ 1500 # [1600, 1700]) demo_flight) = 1
   \<and> arrivals (frames [100, 1500, 1600, 1700] demo_flight) = 1"
proof -
  have f: "\<not> frame_dist demo_flight 100 < 0.65" by (rule demo_flight_far)
  then have h1: "\<forall>n \<in> set [100]. \<not> frame_dist demo_flight n < 0.65" by simp
  have h2: "frame_dist demo_flight 1500 < 0.65" by (rule demo_flight_near)
  have e: "duration demo_flight * 1000 \<le> 1700 - 0"
    unfolding demo_flight_refs(4) by simp
  then have h3: "\<exists>n \<in> set [100, 1500, 1600, 1700]. duration demo_flight * 1000 \<le> n - 0"
    by simp
  have h4: "1500 - 0 < duration demo_flight * 1000"
    unfolding demo_flight_refs(4) by simp
  have a0: "arrivals (CameraPilot_init (Vec3 0 0 4.2)) = 0" by (simp add: CameraPilot_init_def)
  note t = onArrive_once[where tp = "Vec3 0 0 1.5" and now = 0
      and p = "CameraPilot_init (Vec3 0 0 4.2)" and pre = "[100]" and m = 1500
      and post = "[1600, 1700]" and nows = "[100, 1500, 1600, 1700]", unfolded Let_def a0]
  from t h1 have "arrivals (frames [100] demo_flight) = 0" by blast
  moreover from t h1 h2 have "arrivals (frames ([100] @ [1500]) demo_flight) = 0 + 1
     \<and> arrivals (frames ([100] @ 1500 # [1600, 1700]) demo_flight) = 0 + 1" by blast
  moreover from t h3 have "arrivals (frames [100, 1500, 1600, 1700] demo_flight) = 0 + 1" by blast
  ultimately show ?thesis using f h2 e h4 by simp
qed



section \<open>Angle reduction in the ephemeris\<close>

lemma solar_t_epoch: "solar_t 0 = - 0.3"
  by (simp add: solar_t_def T_def jd_def getTime_def)

lemma solar_L0_epoch: "solar_L0 0 = - 79.764461712"
  unfolding solar_L0_def solar_t_epoch Let_def fmod_def js_trunc_def
  by simp

text \<open>
  Claim C4, as stated, fails at the \<open>%\<close> sites: for the instant 1970-01-01T00:00:00Z
  (time value 0) the dividend of the mean longitude is negative and \<open>L0\<close> is
  \<open>-79.764461712\<close>, outside \<open>[0, 360)\<close>.
\<close>

theorem L0_reduction_counterexample: "\<not> (0 \<le> solar_L0 0 \<and> solar_L0 0 < 360)"
  using solar_L0_epoch by simp

lemma fmod_360:
  "(0 \<le> x \<longrightarrow> 0 \<le> fmod x 360 \<and> fmod x 360 < 360)
   \<and> (x \<le> 0 \<longrightarrow> - 360 < fmod x 360 \<and> fmod x 360 \<le> 0)"
  using fmod_nonneg[of 360 x] fmod_nonpos[of 360 x] by simp

lemma fmod_360_abs: "- 360 < fmod x 360 \<and> fmod x 360 < 360"
  using fmod_360[of x] by (cases "0 \<le> x") auto

lemma L0_dividend_nonneg:
  fixes t :: real
  assumes "0 \<le> t"
  shows "0 \<le> 280.46646 + t * (36000.76983 + 0.0003032 * t)"
proof -
  have "0 \<le> t * (36000.76983 + 0.0003032 * t)" using assms by simp
  then show ?thesis by simp
qed

lemma GMST_dividend_nonneg:
  fixes t :: real
  assumes "0 \<le> t" "t \<le> 3000"
  shows "0 \<le> 280.46061837 + 360.98564736629 * (36525 * t) + 0.000387933 * t * t
               - (t * t * t) / 38710000"
proof -
  define A where "A = 360.98564736629 * (36525 * t)"
  define B where "B = 0.000387933 * t * t"
  define D where "D = (t * t * t) / 38710000"
  have "t * t \<le> 3000 * 3000" using assms by (intro mult_mono) simp_all
  then have "t * t * t \<le> 3000 * 3000 * t" using assms(1) by (intro mult_right_mono) simp_all
  then have "D \<le> t" using assms(1) by (simp add: D_def)
  moreover have "0 \<le> B" using assms(1) by (simp add: B_def)
  moreover have "t \<le> A" using assms(1) by (simp add: A_def)
  moreover have "(0::real) \<le> 280.46061837" by simp
  ultimately have "0 \<le> 280.46061837 + A + B - D" by linarith
  then show ?thesis by (simp only: A_def B_def D_def)
qed

lemma jd_T: "jd d - 2451545.0 = 36525 * solar_t d"
  by (simp add: solar_t_def T_def)

lemma fmod_floor:
  fixes x y :: real
  assumes "0 < y" "0 \<le> x"
  shows "fmod x y = x - y * of_int \<lfloor>x / y\<rfloor>"
proof -
  have "0 \<le> x / y" using assms by simp
  then show ?thesis by (simp add: fmod_def js_trunc_def)
qed

text \<open>
  Claim C4, amended. Each of the three \<open>n2\<close> sites (right ascension, GMST, hour angle)
  is \<open>n2\<close> applied to its argument, and \<open>n2\<close> is the floor-style modulo by
  \<open>2 * Math.PI\<close>: for an argument \<open>a\<close> whose truncating remainder is not negative the
  result is \<open>a - T * floor (a / T)\<close> with \<open>T = 2 * Math.PI\<close>, in \<open>[0, T)\<close>; for an
  argument \<open>b\<close> whose truncating remainder is \<open>-2\<^sup>-\<^sup>5\<^sup>0\<close> or less the result is that floor
  modulo rounded to the nearest double, within \<open>2\<^sup>-\<^sup>5\<^sup>1\<close> of it and in \<open>[0, T)\<close>. Nothing is
  said of a remainder between \<open>-2\<^sup>-\<^sup>5\<^sup>0\<close> and 0. The two \<open>% 360\<close> sites (mean longitude,
  GMST in degrees) are truncating remainders: the result is strictly between -360 and
  360 with the sign of the dividend; for a dividend \<open>x \<ge> 0\<close> it is the floor modulo, in
  \<open>[0, 360)\<close>; for a dividend \<open>y \<le> 0\<close> it is in \<open>(-360, 0]\<close>; for instants from J2000.0
  on (\<open>0 \<le> t \<le> 3000\<close> centuries) both dividends are non-negative and so are the
  results.
\<close>

theorem angle_reduction_sites:
  "solar_ra d = n2 (atan2 (cos (solar_epsR d) * sin (solar_lam d)) (cos (solar_lam d)))
   \<and> solar_GMST d = n2 (solar_GMSTdeg d * DEG)
   \<and> sun_Hg d = n2 (solar_GMST d - solar_ra d)
   \<and> (0 \<le> fmod a TWO_PI \<longrightarrow>
        n2 a = a - TWO_PI * of_int \<lfloor>a / TWO_PI\<rfloor> \<and> 0 \<le> n2 a \<and> n2 a < TWO_PI)
   \<and> (fmod b TWO_PI \<le> - (1 / 2 ^ 50) \<longrightarrow>
        n2 b = fl (b - TWO_PI * of_int \<lfloor>b / TWO_PI\<rfloor>)
        \<and> \<bar>n2 b - (b - TWO_PI * of_int \<lfloor>b / TWO_PI\<rfloor>)\<bar> \<le> 1 / 2 ^ 51
        \<and> 0 \<le> n2 b \<and> n2 b < TWO_PI)
   \<and> - 360 < solar_L0 d \<and> solar_L0 d < 360
   \<and> - 360 < solar_GMSTdeg d \<and> solar_GMSTdeg d < 360
   \<and> (0 \<le> solar_t d \<and> solar_t d \<le> 3000 \<longrightarrow>
        0 \<le> solar_L0 d \<and> 0 \<le> solar_GMSTdeg d)
   \<and> (0 \<le> x \<longrightarrow>
        fmod x 360 = x - 360 * of_int \<lfloor>x / 360\<rfloor> \<and> 0 \<le> fmod x 360 \<and> fmod x 360 < 360)
   \<and> (y \<le> 0 \<longrightarrow> - 360 < fmod y 360 \<and> fmod y 360 \<le> 0)"
proof -
  have s: "solar_ra d = n2 (atan2 (cos (solar_epsR d) * sin (solar_lam d)) (cos (solar_lam d)))"
    "solar_GMST d = n2 (solar_GMSTdeg d * DEG)"
    "sun_Hg d = n2 (solar_GMST d - solar_ra d)"
    by (simp_all add: solar_ra_def solar_GMST_def sun_Hg_def solarRAdecAndGMST_def Let_def)
  have n: "n2 a = a - TWO_PI * of_int \<lfloor>a / TWO_PI\<rfloor> \<and> 0 \<le> n2 a \<and> n2 a < TWO_PI"
    if "0 \<le> fmod a TWO_PI"
    using n2_nonneg_rem[OF that] by blast
  have r: "n2 b = fl (b - TWO_PI * of_int \<lfloor>b / TWO_PI\<rfloor>)
        \<and> \<bar>n2 b - (b - TWO_PI * of_int \<lfloor>b / TWO_PI\<rfloor>)\<bar> \<le> 1 / 2 ^ 51
        \<and> 0 \<le> n2 b \<and> n2 b < TWO_PI"
    if "fmod b TWO_PI \<le> - (1 / 2 ^ 50)"
  proof -
    have neg: "fmod b TWO_PI < 0" using that by (simp; linarith)
    show ?thesis using n2_neg_rem(1,3,4)[OF neg] n2_below[OF that] by blast
  qed
  have m: "- 360 < solar_L0 d \<and> solar_L0 d < 360"
    "- 360 < solar_GMSTdeg d \<and> solar_GMSTdeg d < 360"
    unfolding solar_L0_def solar_GMSTdeg_def Let_def by (rule fmod_360_abs)+
  have p: "0 \<le> solar_L0 d \<and> 0 \<le> solar_GMSTdeg d" if "0 \<le> solar_t d" "solar_t d \<le> 3000"
  proof
    show "0 \<le> solar_L0 d"
      unfolding solar_L0_def Let_def
      using L0_dividend_nonneg[OF that(1)] by (intro fmod_nonneg(1)) simp_all
    show "0 \<le> solar_GMSTdeg d"
      unfolding solar_GMSTdeg_def Let_def jd_T
      using GMST_dividend_nonneg[OF that] by (intro fmod_nonneg(1)) simp_all
  qed
  have f: "fmod x 360 = x - 360 * of_int \<lfloor>x / 360\<rfloor>" if "0 \<le> x"
    using that by (intro fmod_floor) simp_all
  show ?thesis using s n r m p f fmod_360[of x] fmod_360[of y] by blast
qed

theorem angle_reduction_sites_witness:
  "0 \<le> fmod 7 TWO_PI
   \<and> n2 7 = 7 - TWO_PI * of_int \<lfloor>7 / TWO_PI\<rfloor> \<and> 0 \<le> n2 7 \<and> n2 7 < TWO_PI
   \<and> fmod (- 1) TWO_PI \<le> - (1 / 2 ^ 50)
   \<and> n2 (- 1) = fl (- 1 - TWO_PI * of_int \<lfloor>- 1 / TWO_PI\<rfloor>) \<and> 0 \<le> n2 (- 1)
   \<and> n2 (- 1) < TWO_PI
   \<and> 0 \<le> solar_t 1710936000000 \<and> solar_t 1710936000000 \<le> 3000
   \<and> 0 \<le> solar_L0 1710936000000 \<and> 0 \<le> solar_GMSTdeg 1710936000000
   \<and> (0::real) \<le> 725.5 \<and> 0 \<le> fmod 725.5 360 \<and> fmod 725.5 360 < 360
   \<and> (- 725.5 :: real) \<le> 0 \<and> - 360 < fmod (- 725.5) 360 \<and> fmod (- 725.5) 360 \<le> 0"
proof -
  have ha: "0 \<le> fmod 7 TWO_PI" using TWO_PI_bounds(1) by (intro fmod_nonneg(1)) simp_all
  have "fmod (- 1) TWO_PI = - 1" using TWO_PI_bounds by (intro fmod_small) simp_all
  then have hb: "fmod (- 1) TWO_PI \<le> - (1 / 2 ^ 50)" by simp
  have h: "0 \<le> solar_t 1710936000000 \<and> solar_t 1710936000000 \<le> 3000"
    by (simp add: solar_t_def T_def jd_def getTime_def)
  have hx: "(0::real) \<le> 725.5" and hy: "(- 725.5 :: real) \<le> 0" by simp_all
  note t = angle_reduction_sites[where d = 1710936000000 and a = 7 and b = "- 1"
      and x = "725.5" and y = "- 725.5"]
  from t ha have "n2 7 = 7 - TWO_PI * of_int \<lfloor>7 / TWO_PI\<rfloor> \<and> 0 \<le> n2 7 \<and> n2 7 < TWO_PI"
    by blast
  moreover from t hb have "n2 (- 1) = fl (- 1 - TWO_PI * of_int \<lfloor>- 1 / TWO_PI\<rfloor>)
    \<and> 0 \<le> n2 (- 1) \<and> n2 (- 1) < TWO_PI" by blast
  moreover from t h have "0 \<le> solar_L0 1710936000000 \<and> 0 \<le> solar_GMSTdeg 1710936000000" by blast
  moreover from t hx have "0 \<le> fmod 725.5 360 \<and> fmod 725.5 360 < 360" by blast
  moreover from t hy have "- 360 < fmod (- 725.5) 360 \<and> fmod (- 725.5) 360 \<le> 0" by blast
  ultimately show ?thesis using ha hb h hx hy by blast
qed

section \<open>Declination at the equinox and at the solstice\<close>

lemma sin_cubic_lower:
  fixes x :: real
  assumes "0 \<le> x"
  shows "x - x ^ 3 / 6 \<le> sin x"
proof -
  have "(\<Sum>m<3. sin_coeff m * x ^ m) = x"
    by (simp add: sin_coeff_def eval_nat_numeral lessThan_Suc)
  then have "\<bar>sin x - x\<bar> \<le> inverse (fact 3) * \<bar>x\<bar> ^ 3"
    using Maclaurin_sin_bound[of x 3] by simp
  moreover have "inverse (fact 3) * \<bar>x\<bar> ^ 3 = x ^ 3 / 6"
    using assms by (simp add: eval_nat_numeral)
  ultimately show ?thesis by linarith
qed

lemma cos_quadratic_lower:
  fixes x :: real
  shows "1 - x\<^sup>2 / 2 \<le> cos x"
proof -
  have "cos x = 1 - 2 * (sin (x / 2))\<^sup>2" using cos_double_sin[of "x / 2"] by simp
  moreover have "(sin (x / 2))\<^sup>2 \<le> (x / 2)\<^sup>2"
    using abs_sin_x_le_abs_x[of "x / 2"] by (simp add: abs_le_square_iff[symmetric])
  ultimately show ?thesis by (simp add: power2_eq_square)
qed

lemma DEG_bounds: "0 < DEG" "DEG < 1 / 45"
  using pi_less_4 by (simp_all add: DEG_def)

lemma sin_shift_turns: "sin ((x + 360 * of_int n) * DEG) = sin (x * DEG)"
proof -
  have "(x + 360 * of_int n) * DEG = x * DEG + 2 * pi * of_int n"
    by (simp add: DEG_def algebra_simps)
  then show ?thesis by (simp add: sin_add)
qed

lemma sin_quarter_turn: "sin ((90 + x) * DEG) = cos (x * DEG)"
proof -
  have "(90 + x) * DEG = pi / 2 + x * DEG" by (simp add: DEG_def algebra_simps)
  then show ?thesis by (simp add: sin_add)
qed


lemma scaled_unit:
  fixes a s :: real
  assumes "0 \<le> a" "- 1 \<le> s" "s \<le> 1"
  shows "- a \<le> a * s" "a * s \<le> a"
proof -
  have "a * s \<le> a * 1" using assms by (intro mult_left_mono) simp_all
  then show "a * s \<le> a" by simp
  have "a * (- 1) \<le> a * s" using assms by (intro mult_left_mono) simp_all
  then show "- a \<le> a * s" by simp
qed

lemma solar_eps_bounds:
  assumes "0 \<le> solar_t d" "solar_t d \<le> 1"
  shows "23.42 \<le> solar_eps d" "solar_eps d \<le> 23.45"
proof -
  define t where "t = solar_t d"
  define t2 where "t2 = t * t"
  define t3 where "t3 = t * t * t"
  define c where "c = cos (solar_Omega d * DEG)"
  have t: "0 \<le> t" "t \<le> 1" using assms by (simp_all add: t_def)
  have t2: "0 \<le> t2" "t2 \<le> 1" using t by (simp_all add: t2_def mult_le_one)
  have t3: "0 \<le> t3" "t3 \<le> 1" using t t2 by (simp_all add: t3_def t2_def[symmetric] mult_le_one)
  have c: "- 1 \<le> c" "c \<le> 1" by (simp_all add: c_def)
  have e: "solar_eps d = 23 + 26 / 60 + 21.448 / 3600
             - (46.8150 * t + 0.00059 * t2 - 0.001813 * t3) / 3600 + 0.00256 * c"
    by (simp add: solar_eps_def solar_eps0_def Let_def t_def t2_def t3_def c_def)
  show "23.42 \<le> solar_eps d" unfolding e using t t2 t3 c
    by (simp add: field_simps; linarith)
  show "solar_eps d \<le> 23.45" unfolding e using t t2 t3 c
    by (simp add: field_simps; linarith)
qed

lemma solar_C_bounds:
  assumes "0 \<le> solar_t d" "solar_t d \<le> 1"
  shows "- 1.935 \<le> solar_C d" "solar_C d \<le> 1.935"
    "0 \<le> sin (solar_Mr d) \<Longrightarrow> - 0.0203 \<le> solar_C d"
proof -
  define t where "t = solar_t d"
  define a1 where "a1 = 1.914602 - t * (0.004817 + 0.000014 * t)"
  define a2 where "a2 = 0.019993 - 0.000101 * t"
  define s1 where "s1 = sin (solar_Mr d)"
  define s2 where "s2 = sin (2.0 * solar_Mr d)"
  define s3 where "s3 = sin (3.0 * solar_Mr d)"
  have t: "0 \<le> t" "t \<le> 1" using assms by (simp_all add: t_def)
  have "0 \<le> t * (0.004817 + 0.000014 * t)" using t by simp
  moreover have "t * (0.004817 + 0.000014 * t) \<le> 1 * (0.004817 + 0.000014 * 1)"
    using t by (intro mult_mono) simp_all
  ultimately have a1: "0 \<le> a1" "a1 \<le> 1.914602" by (simp_all add: a1_def)
  have a2: "0 \<le> a2" "a2 \<le> 0.019993" using t by (simp_all add: a2_def)
  have s: "- 1 \<le> s1" "s1 \<le> 1" "- 1 \<le> s2" "s2 \<le> 1" "- 1 \<le> s3" "s3 \<le> 1"
    by (simp_all add: s1_def s2_def s3_def)
  have e: "solar_C d = a1 * s1 + a2 * s2 + 0.000289 * s3"
    by (simp add: solar_C_def Let_def t_def a1_def a2_def s1_def s2_def s3_def)
  note p1 = scaled_unit[OF a1(1) s(1,2)] and p2 = scaled_unit[OF a2(1) s(3,4)]
  show "- 1.935 \<le> solar_C d" unfolding e using p1 p2 a1 a2 s by (simp; linarith)
  show "solar_C d \<le> 1.935" unfolding e using p1 p2 a1 a2 s by (simp; linarith)
  show "- 0.0203 \<le> solar_C d" if "0 \<le> sin (solar_Mr d)"
  proof -
    have "0 \<le> a1 * s1" using a1(1) that by (simp add: s1_def)
    then show ?thesis unfolding e using p2 a2 s by (simp; linarith)
  qed
qed

lemma solar_lambdaApp_bounds:
  assumes "0 \<le> solar_t d" "solar_t d \<le> 1"
  shows "solar_L0 d - 1.95 \<le> solar_lambdaApp d" "solar_lambdaApp d \<le> solar_L0 d + 1.95"
    "0 \<le> sin (solar_Mr d) \<Longrightarrow> solar_L0 d - 0.031 \<le> solar_lambdaApp d"
proof -
  define s where "s = sin (solar_Omega d * DEG)"
  have s: "- 1 \<le> s" "s \<le> 1" by (simp_all add: s_def)
  have e: "solar_lambdaApp d = solar_L0 d + solar_C d - 0.00569 - 0.00478 * s"
    by (simp add: solar_lambdaApp_def solar_trueLong_def s_def)
  note c = solar_C_bounds[OF assms]
  show "solar_L0 d - 1.95 \<le> solar_lambdaApp d" unfolding e using c(1) s by (simp; linarith)
  show "solar_lambdaApp d \<le> solar_L0 d + 1.95" unfolding e using c(2) s by (simp; linarith)
  show "solar_L0 d - 0.031 \<le> solar_lambdaApp d" if "0 \<le> sin (solar_Mr d)"
    unfolding e using c(3)[OF that] s by (simp; linarith)
qed

lemma sin_epsR_bounds:
  assumes "0 \<le> solar_t d" "solar_t d \<le> 1"
  shows "0 \<le> solar_epsR d" "solar_epsR d \<le> pi / 2" "0 \<le> sin (solar_epsR d)"
    "sin (solar_epsR d) \<le> 23.45 * DEG" "23.42 * DEG \<le> solar_epsR d"
    "solar_epsR d \<le> 23.45 * DEG"
proof -
  note e = solar_eps_bounds[OF assms]
  show lo: "23.42 * DEG \<le> solar_epsR d" and hi: "solar_epsR d \<le> 23.45 * DEG"
    using e DEG_bounds(1) by (simp_all add: solar_epsR_def)
  show nn: "0 \<le> solar_epsR d" using lo DEG_bounds(1) by simp
  have "23.45 * DEG \<le> pi / 2" using pi_gt_zero by (simp add: DEG_def)
  then show h: "solar_epsR d \<le> pi / 2" using hi by linarith
  show "0 \<le> sin (solar_epsR d)" using nn h by (intro sin_ge_zero) simp_all
  show "sin (solar_epsR d) \<le> 23.45 * DEG" using sin_x_le_x[OF nn] hi by simp
qed


lemma arcsin_small:
  assumes "0 < a" "a \<le> pi / 2" "\<bar>p\<bar> < sin a"
  shows "\<bar>arcsin p\<bar> < a"
proof -
  have s1: "sin a \<le> 1" by simp
  have "arcsin p < arcsin (sin a)"
    using assms(3) s1 by (intro arcsin_less_arcsin) linarith+
  moreover have "arcsin (- sin a) < arcsin p"
    using assms(3) s1 by (intro arcsin_less_arcsin) linarith+
  moreover have "arcsin (sin a) = a" using assms(1,2) by (intro arcsin_sin) linarith+
  moreover have "arcsin (- sin a) = - a"
    using assms(1,2) arcsin_sin[of "- a"] by simp
  ultimately show ?thesis by linarith
qed

lemma sin_small_lower:
  fixes x :: real
  assumes "0 \<le> x" "x \<le> 1 / 2"
  shows "0.95 * x \<le> sin x"
proof -
  define y where "y = x ^ 3 / 6"
  have "x * x \<le> 1 / 2 * (1 / 2)" using assms by (intro mult_mono) simp_all
  then have "x * (x * x) \<le> x * (1 / 4)" using assms(1) by (intro mult_left_mono) simp_all
  then have "y \<le> x / 24" by (simp add: power3_eq_cube y_def)
  moreover have "x - y \<le> sin x" using sin_cubic_lower[OF assms(1)] by (simp add: y_def)
  ultimately show ?thesis using assms(1) by (simp; linarith)
qed

lemma equinox_t: "solar_t 1710936000000 = 1769 / 7305"
  by (simp add: solar_t_def T_def jd_def getTime_def)

lemma equinox_L0: "358.517 \<le> solar_L0 1710936000000" "solar_L0 1710936000000 \<le> 358.518"
  unfolding solar_L0_def equinox_t Let_def fmod_def js_trunc_def
  by simp_all

lemma equinox_M: "9000 \<le> solar_M 1710936000000" "solar_M 1710936000000 \<le> 9180"
  unfolding solar_M_def equinox_t Let_def
  by simp_all

lemma equinox_sin_Mr: "0 \<le> sin (solar_Mr 1710936000000)"
proof -
  define x where "x = solar_M 1710936000000 - 9000"
  have x: "0 \<le> x" "x \<le> 180" using equinox_M by (simp_all add: x_def)
  have "solar_Mr 1710936000000 = (x + 360 * of_int 25) * DEG"
    by (simp add: solar_Mr_def x_def)
  then have "sin (solar_Mr 1710936000000) = sin (x * DEG)"
    by (simp only: sin_shift_turns)
  moreover have "0 \<le> x * DEG" using x DEG_bounds(1) by simp
  moreover have "x * DEG \<le> pi" using x by (simp add: DEG_def)
  ultimately show ?thesis by (simp add: sin_ge_zero)
qed

lemma equinox_declination: "\<bar>solar_dec 1710936000000\<bar> < 1 * DEG"
proof -
  let ?d = "1710936000000 :: Date"
  have t: "0 \<le> solar_t ?d" "solar_t ?d \<le> 1" by (simp_all add: equinox_t)
  note E = sin_epsR_bounds[OF t]
  define x where "x = solar_lambdaApp ?d - 360"
  have x: "- 1.52 \<le> x" "x \<le> 1.52"
    using solar_lambdaApp_bounds(2)[OF t] solar_lambdaApp_bounds(3)[OF t equinox_sin_Mr]
      equinox_L0 by (simp_all add: x_def)
  have "solar_lam ?d = (x + 360 * of_int 1) * DEG" by (simp add: solar_lam_def x_def)
  then have lam: "sin (solar_lam ?d) = sin (x * DEG)" by (simp only: sin_shift_turns)
  have "\<bar>x * DEG\<bar> = \<bar>x\<bar> * DEG" using DEG_bounds(1) by (simp add: abs_mult)
  also have "\<dots> \<le> 1.52 * DEG" using x DEG_bounds(1) by (intro mult_right_mono) simp_all
  finally have "\<bar>sin (x * DEG)\<bar> \<le> 1.52 * DEG"
    using abs_sin_x_le_abs_x[of "x * DEG"] by linarith
  then have sl: "\<bar>sin (solar_lam ?d)\<bar> \<le> 1.52 * DEG" by (simp only: lam)
  have "\<bar>sin (solar_epsR ?d) * sin (solar_lam ?d)\<bar>
        = sin (solar_epsR ?d) * \<bar>sin (solar_lam ?d)\<bar>"
    using E(3) by (simp add: abs_mult)
  also have "\<dots> \<le> 23.45 * DEG * (1.52 * DEG)"
    using E(3,4) sl by (intro mult_mono) simp_all
  also have "\<dots> = (23.45 * 1.52 * DEG) * DEG" by simp
  also have "\<dots> \<le> 0.8 * DEG"
    using DEG_bounds by (intro mult_right_mono) simp_all
  also have "\<dots> < 0.95 * DEG" using DEG_bounds(1) by simp
  also have "\<dots> \<le> sin DEG" using DEG_bounds by (intro sin_small_lower) simp_all
  finally have p: "\<bar>sin (solar_epsR ?d) * sin (solar_lam ?d)\<bar> < sin DEG" .
  have "DEG \<le> pi / 2" using pi_gt_zero by (simp add: DEG_def)
  then have "\<bar>arcsin (sin (solar_epsR ?d) * sin (solar_lam ?d))\<bar> < DEG"
    using DEG_bounds(1) p by (intro arcsin_small) simp_all
  then show ?thesis by (simp add: solar_dec_def)
qed


lemma solstice_t: "solar_t 1718928000000 = 715 / 2922"
  by (simp add: solar_t_def T_def jd_def getTime_def)

lemma solstice_L0: "89.689 \<le> solar_L0 1718928000000" "solar_L0 1718928000000 \<le> 89.69"
  unfolding solar_L0_def solstice_t Let_def fmod_def js_trunc_def
  by simp_all

lemma sin_gap: "sin (23.3 * DEG) + 0.09 * DEG \<le> sin (23.42 * DEG)"
proof -
  define D where "D = DEG"
  define a where "a = sin (23.42 * D)"
  define b where "b = sin (23.3 * D)"
  define u where "u = sin (0.06 * D)"
  define v where "v = cos (23.36 * D)"
  define m where "m = v * u"
  have D: "0 < D" "D < 1 / 45" using DEG_bounds by (simp_all add: D_def)
  have "a - b = 2 * sin (0.06 * D) * cos (23.36 * D)"
    unfolding a_def b_def using sin_diff_sin[of "23.42 * D" "23.3 * D"]
    by (simp add: algebra_simps)
  then have e: "a - b = 2 * m" by (simp add: m_def u_def v_def)
  have s: "0.95 * (0.06 * D) \<le> u"
    unfolding u_def using D by (intro sin_small_lower) simp_all
  have c: "0.86 \<le> v"
  proof -
    define w where "w = (23.36 * D)\<^sup>2"
    have "\<bar>23.36 * D\<bar> \<le> \<bar>23.36 / 45\<bar>" using D by simp
    then have "w \<le> (23.36 / 45)\<^sup>2" unfolding w_def by (simp only: abs_le_square_iff)
    also have "\<dots> \<le> 0.28" by (simp add: power2_eq_square)
    finally have "w \<le> 0.28" .
    moreover have "1 - w / 2 \<le> v"
      unfolding w_def v_def by (rule cos_quadratic_lower)
    ultimately show ?thesis by (simp; linarith)
  qed
  have "0.86 * (0.95 * (0.06 * D)) \<le> m"
    unfolding m_def using s c D(1) by (intro mult_mono) simp_all
  then have "b + 0.09 * D \<le> a" using e D(1) by (simp; linarith)
  then show ?thesis by (simp only: a_def b_def D_def)
qed

lemma solstice_declination:
  "23.3 * DEG < solar_dec 1718928000000" "solar_dec 1718928000000 < 23.5 * DEG"
proof -
  let ?d = "1718928000000 :: Date"
  have t: "0 \<le> solar_t ?d" "solar_t ?d \<le> 1" by (simp_all add: solstice_t)
  note E = sin_epsR_bounds[OF t]
  define S where "S = sin (solar_epsR ?d)"
  define x where "x = solar_lambdaApp ?d - 90"
  define c where "c = cos (x * DEG)"
  have x: "- 2.27 \<le> x" "x \<le> 2.27"
    using solar_lambdaApp_bounds(1,2)[OF t] solstice_L0 by (simp_all add: x_def)
  have "solar_lam ?d = (90 + x) * DEG" by (simp add: solar_lam_def x_def)
  then have lam: "sin (solar_lam ?d) = c" by (simp only: sin_quarter_turn c_def)
  have p: "sin (solar_epsR ?d) * sin (solar_lam ?d) = S * c" by (simp only: lam S_def)
  have c1: "c \<le> 1" by (simp add: c_def)
  have c0: "1 - 0.0013 \<le> c"
  proof -
    have "\<bar>x * DEG\<bar> = \<bar>x\<bar> * DEG" using DEG_bounds(1) by (simp add: abs_mult)
    also have "\<dots> \<le> 2.27 * (1 / 45)" using x DEG_bounds by (intro mult_mono) simp_all
    finally have "\<bar>x * DEG\<bar> \<le> \<bar>2.27 * (1 / 45)\<bar>" by simp
    define w where "w = (x * DEG)\<^sup>2"
    have "w \<le> (2.27 * (1 / 45))\<^sup>2"
      unfolding w_def using \<open>\<bar>x * DEG\<bar> \<le> \<bar>2.27 * (1 / 45)\<bar>\<close> by (simp only: abs_le_square_iff)
    also have "\<dots> \<le> 0.0026" by (simp add: power2_eq_square)
    finally have "w \<le> 0.0026" .
    moreover have "1 - w / 2 \<le> c" unfolding w_def c_def by (rule cos_quadratic_lower)
    ultimately show ?thesis by (simp; linarith)
  qed
  have S0: "0 \<le> S" and S1: "S \<le> 23.45 * DEG" using E(3,4) by (simp_all add: S_def)
  have "- (pi / 2) \<le> 23.42 * DEG"
    using DEG_bounds(1) pi_gt_zero by (simp add: DEG_def)
  then have S2: "sin (23.42 * DEG) \<le> S"
    unfolding S_def using E(5) E(2) by (rule sin_monotone_2pi_le)
  have "S * (1 - c) \<le> 23.45 * DEG * 0.0013"
    using S0 S1 c0 c1 by (intro mult_mono) simp_all
  also have "\<dots> \<le> 0.04 * DEG" using DEG_bounds(1) by simp
  finally have loss: "S - 0.04 * DEG \<le> S * c" by (simp add: algebra_simps)
  have lower: "sin (23.3 * DEG) < S * c"
    using sin_gap S2 loss DEG_bounds(1) by (simp; linarith)
  have upper: "S * c \<le> S" using scaled_unit(2)[OF S0, of c] c0 c1 by simp
  have S_le1: "S \<le> 1" by (simp add: S_def)
  have a: "- (pi / 2) \<le> 23.3 * DEG" "23.3 * DEG \<le> pi / 2"
    using DEG_bounds(1) pi_gt_zero by (simp_all add: DEG_def)
  have "- 1 \<le> sin (23.3 * DEG)" by simp
  then have "arcsin (sin (23.3 * DEG)) < arcsin (S * c)"
    using lower upper S_le1 by (intro arcsin_less_arcsin) linarith+
  then show "23.3 * DEG < solar_dec ?d"
    by (simp only: arcsin_sin[OF a] solar_dec_def p)
  have "- 1 \<le> sin (23.3 * DEG)" by simp
  then have "- 1 \<le> S * c" using lower by linarith
  then have "arcsin (S * c) \<le> arcsin S"
    using upper S_le1 by (intro arcsin_le_arcsin) linarith+
  also have "arcsin S = solar_epsR ?d"
    unfolding S_def using E(1,2) pi_gt_zero by (intro arcsin_sin) linarith+
  also have "\<dots> < 23.5 * DEG" using E(6) DEG_bounds(1) by (simp; linarith)
  finally show "solar_dec ?d < 23.5 * DEG" by (simp only: solar_dec_def p)
qed

text \<open>
  Claim C9. For the instant 2024-03-20T12:00:00Z (time value 1710936000000) the
  declination computed by the ephemeris is within 1 degree of 0; for the instant
  2024-06-21T00:00:00Z (time value 1718928000000) it is within 0.1 degree of 23.4
  degrees. The declination is in radians, \<open>DEG\<close> is one degree.
\<close>

theorem declination_scenarios:
  "\<bar>solar_dec 1710936000000\<bar> < 1 * DEG
   \<and> \<bar>solar_dec 1718928000000 - 23.4 * DEG\<bar> < 0.1 * DEG"
proof -
  define D where "D = DEG"
  define y where "y = solar_dec 1718928000000"
  have "23.3 * D < y" "y < 23.5 * D" using solstice_declination by (simp_all add: D_def y_def)
  then have u: "y - 23.4 * D < 0.1 * D" and l: "- (y - 23.4 * D) < 0.1 * D"
    by (simp; linarith)+
  have "\<bar>y - 23.4 * D\<bar> < 0.1 * D" by (rule iffD2[OF abs_less_iff conjI[OF u l]])
  then have "\<bar>solar_dec 1718928000000 - 23.4 * DEG\<bar> < 0.1 * DEG"
    by (simp only: D_def y_def)
  with equinox_declination show ?thesis by blast
qed

section \<open>Orientation Synchronizer\<close>

lemma length_v3_unit_iff:
  "length_v3 v = 1 \<longleftrightarrow> vx v * vx v + vy v * vy v + vz v * vz v = 1"
  by (simp add: length_v3_def)

lemma normalize_v3_length:
  assumes "length_v3 v \<noteq> 0"
  shows "length_v3 (normalize_v3 v) = 1"
proof -
  let ?s = "vx v * vx v + vy v * vy v + vz v * vz v"
  have s: "0 \<le> ?s" by simp
  have l: "length_v3 v * length_v3 v = ?s" using s by (simp add: length_v3_def)
  have "vx v * (1 / length_v3 v) * (vx v * (1 / length_v3 v))
      + vy v * (1 / length_v3 v) * (vy v * (1 / length_v3 v))
      + vz v * (1 / length_v3 v) * (vz v * (1 / length_v3 v))
      = ?s / (length_v3 v * length_v3 v)"
    by (simp add: add_divide_distrib)
  also have "\<dots> = 1" using assms by (simp only: l[symmetric]) simp
  finally show ?thesis
    using assms by (simp add: length_v3_unit_iff normalize_v3_def divideScalar_def multiplyScalar_def)
qed

lemma SUN_W_unit: "length_v3 SUN_W = 1"
proof -
  have "length_v3 (Vec3 (- 0.7) 0.7 0.75) \<noteq> 0" by (simp add: length_v3_def)
  then show ?thesis unfolding SUN_W_def by (rule normalize_v3_length)
qed

lemma EPSILON_pos: "0 < EPSILON"
  by (simp add: EPSILON_def)

lemma rotate_onto:
  fixes k r :: real
  assumes a: "vx a * vx a + vy a * vy a + vz a * vz a = 1"
    and b: "vx b * vx b + vy b * vy b + vz b * vz b = 1"
    and r: "r = vx a * vx b + vy a * vy b + vz a * vz b + 1"
    and k: "k * k * (2 * r) = 1"
  shows "applyQuaternion a
           \<lparr>qx = (vy a * vz b - vz a * vy b) * k,
            qy = (vz a * vx b - vx a * vz b) * k,
            qz = (vx a * vy b - vy a * vx b) * k,
            qw = r * k\<rparr> = b"
proof (rule Vector3_eqI)
  show "vx (applyQuaternion a
           \<lparr>qx = (vy a * vz b - vz a * vy b) * k,
            qy = (vz a * vx b - vx a * vz b) * k,
            qz = (vx a * vy b - vy a * vx b) * k,
            qw = r * k\<rparr>) = vx b"
    unfolding applyQuaternion_def Let_def Vec3_sel Quaternion.simps
    using assms by algebra
  show "vy (applyQuaternion a
           \<lparr>qx = (vy a * vz b - vz a * vy b) * k,
            qy = (vz a * vx b - vx a * vz b) * k,
            qz = (vx a * vy b - vy a * vx b) * k,
            qw = r * k\<rparr>) = vy b"
    unfolding applyQuaternion_def Let_def Vec3_sel Quaternion.simps
    using assms by algebra
  show "vz (applyQuaternion a
           \<lparr>qx = (vy a * vz b - vz a * vy b) * k,
            qy = (vz a * vx b - vx a * vz b) * k,
            qz = (vx a * vy b - vy a * vx b) * k,
            qw = r * k\<rparr>) = vz b"
    unfolding applyQuaternion_def Let_def Vec3_sel Quaternion.simps
    using assms by algebra
qed

lemma cross_norm:
  fixes r :: real
  assumes a: "vx a * vx a + vy a * vy a + vz a * vz a = 1"
    and b: "vx b * vx b + vy b * vy b + vz b * vz b = 1"
    and r: "r = vx a * vx b + vy a * vy b + vz a * vz b + 1"
  shows "(vy a * vz b - vz a * vy b) * (vy a * vz b - vz a * vy b)
       + (vz a * vx b - vx a * vz b) * (vz a * vx b - vx a * vz b)
       + (vx a * vy b - vy a * vx b) * (vx a * vy b - vy a * vx b) + r * r = 2 * r"
  using assms by algebra

lemma setFromUnitVectors_rotates:
  assumes "length_v3 a = 1" "length_v3 b = 1" "0 < eps" "eps \<le> dot a b + 1"
  shows "applyQuaternion a (setFromUnitVectors eps a b) = b"
proof -
  define r where "r = dot a b + 1"
  have r: "r = vx a * vx b + vy a * vy b + vz a * vz b + 1" by (simp add: r_def dot_def)
  have a: "vx a * vx a + vy a * vy a + vz a * vz a = 1"
    and b: "vx b * vx b + vy b * vy b + vz b * vz b = 1"
    using assms(1,2) by (simp_all add: length_v3_unit_iff)
  have rpos: "0 < r" using assms(3,4) by (simp add: r_def)
  define l where "l = sqrt (2 * r)"
  have lpos: "0 < l" using rpos by (simp add: l_def)
  have ll: "l * l = 2 * r" using rpos by (simp add: l_def)
  define k where "k = 1 / l"
  have "k * k * (2 * r) = 1 / l * (1 / l) * (l * l)" by (simp only: k_def ll)
  also have "\<dots> = 1" using lpos by simp
  finally have k: "k * k * (2 * r) = 1" .
  have len: "length_q \<lparr>qx = vy a * vz b - vz a * vy b, qy = vz a * vx b - vx a * vz b,
      qz = vx a * vy b - vy a * vx b, qw = r\<rparr> = l"
    by (simp add: length_q_def cross_norm[OF a b r] l_def)
  have "setFromUnitVectors eps a b =
          \<lparr>qx = (vy a * vz b - vz a * vy b) * k,
            qy = (vz a * vx b - vx a * vz b) * k,
            qz = (vx a * vy b - vy a * vx b) * k,
            qw = r * k\<rparr>"
    using assms(4) lpos
    by (simp add: setFromUnitVectors_def r_def[symmetric] Let_def normalize_q_def len k_def)
  then show ?thesis using rotate_onto[OF a b r k] by simp
qed


lemma half_turn_xy:
  fixes k :: real
  assumes "k * k * (vy a * vy a + vx a * vx a) = 1"
  shows "applyQuaternion a \<lparr>qx = - vy a * k, qy = vx a * k, qz = 0 * k, qw = 0 * k\<rparr> = negate a"
proof (rule Vector3_eqI)
  show "vx (applyQuaternion a \<lparr>qx = - vy a * k, qy = vx a * k, qz = 0 * k, qw = 0 * k\<rparr>)
        = vx (negate a)"
    unfolding applyQuaternion_def Let_def Vec3_sel Quaternion.simps negate_def
    using assms by algebra
  show "vy (applyQuaternion a \<lparr>qx = - vy a * k, qy = vx a * k, qz = 0 * k, qw = 0 * k\<rparr>)
        = vy (negate a)"
    unfolding applyQuaternion_def Let_def Vec3_sel Quaternion.simps negate_def
    using assms by algebra
  show "vz (applyQuaternion a \<lparr>qx = - vy a * k, qy = vx a * k, qz = 0 * k, qw = 0 * k\<rparr>)
        = vz (negate a)"
    unfolding applyQuaternion_def Let_def Vec3_sel Quaternion.simps negate_def
    using assms by algebra
qed

lemma half_turn_yz:
  fixes k :: real
  assumes "k * k * (vz a * vz a + vy a * vy a) = 1"
  shows "applyQuaternion a \<lparr>qx = 0 * k, qy = - vz a * k, qz = vy a * k, qw = 0 * k\<rparr> = negate a"
proof (rule Vector3_eqI)
  show "vx (applyQuaternion a \<lparr>qx = 0 * k, qy = - vz a * k, qz = vy a * k, qw = 0 * k\<rparr>)
        = vx (negate a)"
    unfolding applyQuaternion_def Let_def Vec3_sel Quaternion.simps negate_def
    using assms by algebra
  show "vy (applyQuaternion a \<lparr>qx = 0 * k, qy = - vz a * k, qz = vy a * k, qw = 0 * k\<rparr>)
        = vy (negate a)"
    unfolding applyQuaternion_def Let_def Vec3_sel Quaternion.simps negate_def
    using assms by algebra
  show "vz (applyQuaternion a \<lparr>qx = 0 * k, qy = - vz a * k, qz = vy a * k, qw = 0 * k\<rparr>)
        = vz (negate a)"
    unfolding applyQuaternion_def Let_def Vec3_sel Quaternion.simps negate_def
    using assms by algebra
qed

lemma inv_sqrt_sq:
  fixes s :: real
  assumes "0 < s"
  shows "1 / sqrt s * (1 / sqrt s) * s = 1"
  using assms by simp

lemma setFromUnitVectors_opposite:
  assumes "length_v3 a = 1" "dot a b + 1 < eps"
  shows "applyQuaternion a (setFromUnitVectors eps a b) = negate a"
proof -
  have a: "vx a * vx a + vy a * vy a + vz a * vz a = 1"
    using assms(1) by (simp add: length_v3_unit_iff)
  show ?thesis
  proof (cases "\<bar>vx a\<bar> > \<bar>vz a\<bar>")
    case True
    then have "vx a \<noteq> 0" by auto
    then have "0 < vx a * vx a" by (auto simp: zero_less_mult_iff)
    moreover have "0 \<le> vy a * vy a" by simp
    ultimately have p: "0 < vy a * vy a + vx a * vx a" by linarith
    define s where "s = vy a * vy a + vx a * vx a"
    define k where "k = 1 / sqrt s"
    have k: "k * k * (vy a * vy a + vx a * vx a) = 1"
      unfolding k_def s_def by (rule inv_sqrt_sq[OF p])
    have len: "length_q \<lparr>qx = - vy a, qy = vx a, qz = 0, qw = 0\<rparr> = sqrt s"
      by (simp add: length_q_def s_def)
    have "0 < s" using p by (simp only: s_def)
    then have ne: "s \<noteq> 0" by simp
    have "setFromUnitVectors eps a b = \<lparr>qx = - vy a * k, qy = vx a * k, qz = 0 * k, qw = 0 * k\<rparr>"
      using assms(2) True
      by (simp add: setFromUnitVectors_def Let_def normalize_q_def len ne k_def)
    then show ?thesis using half_turn_xy[OF k] by simp
  next
    case False
    have "vz a \<noteq> 0 \<or> vy a \<noteq> 0"
    proof (rule ccontr)
      assume "\<not> (vz a \<noteq> 0 \<or> vy a \<noteq> 0)"
      then have "vz a = 0" "vy a = 0" by simp_all
      moreover from this False have "vx a = 0" by simp
      ultimately show False using a by simp
    qed
    then have "0 < vz a * vz a \<or> 0 < vy a * vy a" by (auto simp: zero_less_mult_iff)
    moreover have "0 \<le> vy a * vy a" "0 \<le> vz a * vz a" by simp_all
    ultimately have p: "0 < vz a * vz a + vy a * vy a" by linarith
    define s where "s = vz a * vz a + vy a * vy a"
    define k where "k = 1 / sqrt s"
    have k: "k * k * (vz a * vz a + vy a * vy a) = 1"
      unfolding k_def s_def by (rule inv_sqrt_sq[OF p])
    have len: "length_q \<lparr>qx = 0, qy = - vz a, qz = vy a, qw = 0\<rparr> = sqrt s"
      by (simp add: length_q_def s_def)
    have "0 < s" using p by (simp only: s_def)
    then have ne: "s \<noteq> 0" by simp
    have "setFromUnitVectors eps a b = \<lparr>qx = 0 * k, qy = - vz a * k, qz = vy a * k, qw = 0 * k\<rparr>"
      using assms(2) False
      by (simp add: setFromUnitVectors_def Let_def normalize_q_def len ne k_def)
    then show ?thesis using half_turn_yz[OF k] by simp
  qed
qed

lemma opposite_distance:
  assumes "length_v3 a = 1" "length_v3 b = 1"
  shows "distanceToSquared (negate a) b = 2 * (dot a b + 1)"
proof -
  have a: "vx a * vx a + vy a * vy a + vz a * vz a = 1"
    and b: "vx b * vx b + vy b * vy b + vz b * vz b = 1"
    using assms by (simp_all add: length_v3_unit_iff)
  show ?thesis
    unfolding distanceToSquared_def Let_def negate_def Vec3_sel dot_def
    using a b by algebra
qed

lemma setFromUnitVectors_close:
  assumes "length_v3 a = 1" "length_v3 b = 1" "0 < eps"
  shows "distanceToSquared (applyQuaternion a (setFromUnitVectors eps a b)) b < 2 * eps"
proof (cases "eps \<le> dot a b + 1")
  case True
  then show ?thesis
    using setFromUnitVectors_rotates[OF assms] assms(3)
    by (simp add: distanceToSquared_def)
next
  case False
  then have lt: "dot a b + 1 < eps" by simp
  then show ?thesis
    by (simp add: setFromUnitVectors_opposite[OF assms(1) lt] opposite_distance[OF assms(1,2)])
qed

lemma distance_below:
  assumes "distanceToSquared u v < 2 * eps" "eps \<le> EPSILON"
  shows "distanceTo u v < 1 / 2 ^ 25"
proof -
  have "2 * EPSILON < (1 / 2 ^ 25)\<^sup>2" by (simp add: EPSILON_def power2_eq_square)
  then have "distanceToSquared u v < (1 / 2 ^ 25)\<^sup>2" using assms by linarith
  then have "sqrt (distanceToSquared u v) < 1 / 2 ^ 25"
    by (intro real_less_lsqrt) simp_all
  then show ?thesis by (simp add: distanceTo_def)
qed

lemma useFrame_SUN_W: "SUN_W_obj (EarthSystem_useFrame eps now dt s) = SUN_W_obj s"
  by (simp add: EarthSystem_useFrame_def Let_def split: option.splits)

lemma useFrame_quaternion:
  assumes "SUN_W_obj s = SUN_W" "base_quaternion s \<noteq> None"
  shows "base_quaternion (EarthSystem_useFrame eps now dt s)
          = Some (setFromUnitVectors eps (sunVec_EarthFixed (sim_date s now)) SUN_W)"
  using assms by (auto simp: EarthSystem_useFrame_def Let_def)

lemma sunVec_components:
  "sunVec_EarthFixed d =
     Vec3 (cos (solar_dec d) * cos (sun_Hg d)) (sin (solar_dec d)) (cos (solar_dec d) * sin (sun_Hg d))"
  by (simp add: sunVec_EarthFixed_def Let_def solarRAdecAndGMST_def normalize_v3_unit sun_raw_length)

lemma SUN_W_components:
  "SUN_W = Vec3 (- 0.7 * (1 / sqrt 1.5425)) (0.7 * (1 / sqrt 1.5425)) (0.75 * (1 / sqrt 1.5425))"
proof -
  have "length_v3 (Vec3 (- 0.7) 0.7 0.75) = sqrt 1.5425" by (simp add: length_v3_def)
  moreover have "sqrt 1.5425 \<noteq> 0" by simp
  ultimately show ?thesis
    by (simp add: SUN_W_def normalize_v3_def divideScalar_def multiplyScalar_def)
qed

lemma pi_sixth_step:
  fixes B :: real
  assumes "pi / 6 \<le> B" "0 \<le> B"
  shows "pi / 6 \<le> 1 / 2 + B ^ 3 / 6"
proof -
  have p: "0 \<le> pi / 6" by simp
  have "(pi / 6) ^ 3 \<le> B ^ 3" using assms p by (intro power_mono) simp_all
  moreover have "pi / 6 - (pi / 6) ^ 3 / 6 \<le> sin (pi / 6)" by (rule sin_cubic_lower[OF p])
  ultimately show ?thesis by (simp add: sin_30; linarith)
qed

lemma pi_upper: "pi \<le> 3.15"
proof -
  have b0: "pi / 6 \<le> 2 / 3" using pi_less_4 by simp
  have "pi / 6 \<le> 1 / 2 + (2 / 3) ^ 3 / 6" by (rule pi_sixth_step[OF b0]) simp
  then have b1: "pi / 6 \<le> 0.55" by (simp add: power3_eq_cube; linarith)
  have "pi / 6 \<le> 1 / 2 + 0.55 ^ 3 / 6" by (rule pi_sixth_step[OF b1]) simp
  then have b2: "pi / 6 \<le> 0.528" by (simp add: power3_eq_cube; linarith)
  have "pi / 6 \<le> 1 / 2 + 0.528 ^ 3 / 6" by (rule pi_sixth_step[OF b2]) simp
  then have b3: "pi / 6 \<le> 0.5246" by (simp add: power3_eq_cube; linarith)
  then show ?thesis by (simp; linarith)
qed


lemma sin_dec_bound:
  assumes "0 \<le> solar_t d" "solar_t d \<le> 1"
  shows "\<bar>sin (solar_dec d)\<bar> \<le> 0.4104"
proof -
  note E = sin_epsR_bounds[OF assms]
  define S where "S = sin (solar_epsR d)"
  define l where "l = sin (solar_lam d)"
  have S: "0 \<le> S" "S \<le> 23.45 * DEG" using E(3,4) by (simp_all add: S_def)
  have l: "- 1 \<le> l" "l \<le> 1" by (simp_all add: l_def)
  have "23.45 * DEG \<le> 23.45 * (3.15 / 180)"
    using pi_upper by (simp add: DEG_def)
  then have S1: "S \<le> 0.4104" using S(2) by (simp; linarith)
  define m where "m = S * l"
  have b: "- S \<le> m" "m \<le> S" unfolding m_def by (rule scaled_unit[OF S(1) l])+
  have m: "- 0.4104 \<le> m" "m \<le> 0.4104" using b S1 by (simp; linarith)+
  then have "- 1 \<le> m" "m \<le> 1" by (simp; linarith)+
  then have "sin (arcsin m) = m" by (rule sin_arcsin)
  then have "sin (solar_dec d) = m" by (simp add: solar_dec_def S_def l_def m_def)
  then show ?thesis using m by (simp add: abs_le_iff; linarith)
qed

lemma tilt_margin:
  fixes a :: real
  assumes "0 \<le> a" "a \<le> 0.4104"
  shows "1.0525 * (1 - a * a) \<le> (1.223 - 0.7 * a) * (1.223 - 0.7 * a)"
proof -
  define g where "g = (0.4104 - a) * (1.7122 - 1.5425 * (a + 0.4104))"
  have "0 \<le> 0.4104 - a" using assms by simp
  moreover have "0 \<le> 1.7122 - 1.5425 * (a + 0.4104)" using assms by (simp; linarith)
  ultimately have g: "0 \<le> g" unfolding g_def by (rule mult_nonneg_nonneg)
  define L where "L = 1.0525 * (1 - a * a)"
  define U where "U = (1.223 - 0.7 * a) * (1.223 - 0.7 * a)"
  have "U - L = 0.0003425568 + g"
    unfolding g_def U_def L_def by (simp add: field_simps)
  moreover have "(0::real) \<le> 0.0003425568" by simp
  ultimately have "L \<le> U" using g by linarith
  then show ?thesis by (simp only: L_def U_def)
qed

lemma sun_not_opposite:
  assumes "0 \<le> solar_t d" "solar_t d \<le> 1"
  shows "0.015 \<le> dot (sunVec_EarthFixed d) SUN_W + 1"
proof -
  define x where "x = cos (solar_dec d) * cos (sun_Hg d)"
  define y where "y = sin (solar_dec d)"
  define z where "z = cos (solar_dec d) * sin (sun_Hg d)"
  define k where "k = 1 / sqrt 1.5425"
  define w where "w = - 0.7 * x + 0.75 * z"
  define a where "a = \<bar>y\<bar>"
  have a: "0 \<le> a" "a \<le> 0.4104" using sin_dec_bound[OF assms] by (simp_all add: a_def y_def)
  have "x * x + y * y + z * z = 1"
    using sunVec_EarthFixed_length[of d]
    unfolding length_v3_unit_iff sunVec_components by (simp add: x_def y_def z_def)
  moreover have "y * y = a * a" by (simp add: a_def)
  ultimately have xz: "x * x + z * z = 1 - a * a" by linarith
  define W where "W = w * w"
  define Q where "Q = (0.75 * x + 0.7 * z) * (0.75 * x + 0.7 * z)"
  define R where "R = x * x + z * z"
  define G where "G = (1.223 - 0.7 * a) * (1.223 - 0.7 * a)"
  have "W + Q = 1.0525 * R" by (simp add: W_def Q_def R_def w_def algebra_simps)
  moreover have "0 \<le> Q" by (simp add: Q_def)
  moreover have "1.0525 * R \<le> G" unfolding R_def xz G_def by (rule tilt_margin[OF a])
  ultimately have "W \<le> G" by linarith
  then have "w\<^sup>2 \<le> (1.223 - 0.7 * a)\<^sup>2" by (simp add: W_def G_def power2_eq_square)
  then have "\<bar>w\<bar> \<le> \<bar>1.223 - 0.7 * a\<bar>" by (simp only: abs_le_square_iff)
  moreover have "0 \<le> 1.223 - 0.7 * a" using a by (simp; linarith)
  ultimately have wa: "\<bar>w\<bar> \<le> 1.223 - 0.7 * a" by linarith
  define n where "n = w + 0.7 * y"
  have n: "- 1.223 \<le> n" using wa by (simp add: n_def a_def; linarith)
  have "(1.2419::real)\<^sup>2 \<le> 1.5425" by (simp add: power2_eq_square)
  then have "1.2419 \<le> sqrt 1.5425" by (rule real_le_rsqrt)
  then have k: "0 < k" "k \<le> 1 / 1.2419" by (simp_all add: k_def field_simps)
  have "- 1.223 * (1 / 1.2419) \<le> - 1.223 * k" using k by simp
  also have "\<dots> \<le> n * k" using n k(1) by (intro mult_right_mono) simp_all
  finally have nk: "- 0.985 \<le> n * k" by simp
  have "dot (sunVec_EarthFixed d) SUN_W = n * k"
    unfolding sunVec_components SUN_W_components
    by (simp add: dot_def x_def y_def z_def k_def w_def n_def algebra_simps)
  then show ?thesis using nk by (simp; linarith)
qed

text \<open>
  Claim C2. For every instant \<open>d\<close> and every positive threshold \<open>eps\<close> the quaternion
  \<open>q = setFromUnitVectors s_e SUN_W\<close> built from \<open>s_e = sunVec_EarthFixed d\<close> takes \<open>s_e\<close>
  to \<open>SUN_W\<close>: the squared distance between \<open>q\<close> applied to \<open>s_e\<close> and \<open>SUN_W\<close> is below
  \<open>2 * eps\<close> (a distance below \<open>2\<^sup>-\<^sup>2\<^sup>5\<close> for \<open>Number.EPSILON\<close>), and the two are equal
  unless \<open>s_e\<close> is within \<open>eps\<close> of being opposite to \<open>SUN_W\<close>, which for a threshold of
  at most 0.015 does not happen for any instant of the years 2000 to 2100
  (\<open>0 \<le> t \<le> 1\<close>). The frame update leaves \<open>SUN_W\<close> as it is and stores that quaternion
  in the group.
\<close>

theorem orientation_sync:
  "0 < eps \<Longrightarrow>
   (let s_e = sunVec_EarthFixed d; q = setFromUnitVectors eps s_e SUN_W in
      distanceToSquared (applyQuaternion s_e q) SUN_W < 2 * eps
      \<and> (eps \<le> EPSILON \<longrightarrow> distanceTo (applyQuaternion s_e q) SUN_W < 1 / 2 ^ 25)
      \<and> (eps \<le> dot s_e SUN_W + 1 \<longrightarrow> applyQuaternion s_e q = SUN_W)
      \<and> (eps \<le> 0.015 \<and> 0 \<le> solar_t d \<and> solar_t d \<le> 1 \<longrightarrow> applyQuaternion s_e q = SUN_W))
   \<and> SUN_W_obj (EarthSystem_useFrame eps now dt s) = SUN_W_obj s
   \<and> (SUN_W_obj s = SUN_W \<and> base_quaternion s \<noteq> None \<longrightarrow>
        base_quaternion (EarthSystem_useFrame eps now dt s)
          = Some (setFromUnitVectors eps (sunVec_EarthFixed (sim_date s now)) SUN_W))"
proof -
  assume eps: "0 < eps"
  let ?s = "sunVec_EarthFixed d"
  let ?q = "setFromUnitVectors eps ?s SUN_W"
  note u = sunVec_EarthFixed_length[of d] SUN_W_unit
  have c: "distanceToSquared (applyQuaternion ?s ?q) SUN_W < 2 * eps"
    by (rule setFromUnitVectors_close[OF u eps])
  have b: "distanceTo (applyQuaternion ?s ?q) SUN_W < 1 / 2 ^ 25" if "eps \<le> EPSILON"
    by (rule distance_below[OF c that])
  have r: "applyQuaternion ?s ?q = SUN_W" if "eps \<le> dot ?s SUN_W + 1"
    by (rule setFromUnitVectors_rotates[OF u eps that])
  have y: "applyQuaternion ?s ?q = SUN_W"
    if "eps \<le> 0.015 \<and> 0 \<le> solar_t d \<and> solar_t d \<le> 1"
  proof -
    have "0.015 \<le> dot ?s SUN_W + 1" using that by (intro sun_not_opposite) simp_all
    then have "eps \<le> dot ?s SUN_W + 1" using that by linarith
    then show ?thesis by (rule r)
  qed
  show ?thesis
    using c b r y useFrame_SUN_W[of eps now dt s] useFrame_quaternion[of s eps now dt]
    unfolding Let_def by blast
qed

theorem orientation_sync_witness:
  "0 < EPSILON \<and> EPSILON \<le> 0.015
   \<and> 0 \<le> solar_t 1718928000000 \<and> solar_t 1718928000000 \<le> 1
   \<and> distanceTo (applyQuaternion (sunVec_EarthFixed 1718928000000)
        (setFromUnitVectors EPSILON (sunVec_EarthFixed 1718928000000) SUN_W)) SUN_W < 1 / 2 ^ 25
   \<and> applyQuaternion (sunVec_EarthFixed 1718928000000)
        (setFromUnitVectors EPSILON (sunVec_EarthFixed 1718928000000) SUN_W) = SUN_W
   \<and> SUN_W_obj (EarthSystem_init 1718928000000 1718928000000) = SUN_W
   \<and> base_quaternion (EarthSystem_init 1718928000000 1718928000000) \<noteq> None
   \<and> base_quaternion (EarthSystem_useFrame EPSILON 1718928000016 0.016
         (EarthSystem_init 1718928000000 1718928000000))
       = Some (setFromUnitVectors EPSILON
           (sunVec_EarthFixed (sim_date (EarthSystem_init 1718928000000 1718928000000) 1718928000016))
           SUN_W)"
proof -
  have h0: "0 < EPSILON" by (rule EPSILON_pos)
  have h1: "EPSILON \<le> 0.015 \<and> 0 \<le> solar_t 1718928000000 \<and> solar_t 1718928000000 \<le> 1"
    by (simp add: solstice_t EPSILON_def)
  have h2: "SUN_W_obj (EarthSystem_init 1718928000000 1718928000000) = SUN_W
    \<and> base_quaternion (EarthSystem_init 1718928000000 1718928000000) \<noteq> None"
    by (simp add: EarthSystem_init_def)
  have h3: "EPSILON \<le> EPSILON" by simp
  note t = orientation_sync[OF h0, where d = 1718928000000 and now = 1718928000016
      and dt = "0.016" and s = "EarthSystem_init 1718928000000 1718928000000", unfolded Let_def]
  from t h3 have "distanceTo (applyQuaternion (sunVec_EarthFixed 1718928000000)
        (setFromUnitVectors EPSILON (sunVec_EarthFixed 1718928000000) SUN_W)) SUN_W < 1 / 2 ^ 25"
    by blast
  moreover from t h1 have "applyQuaternion (sunVec_EarthFixed 1718928000000)
        (setFromUnitVectors EPSILON (sunVec_EarthFixed 1718928000000) SUN_W) = SUN_W" by blast
  moreover from t h2 have "base_quaternion (EarthSystem_useFrame EPSILON 1718928000016 0.016
         (EarthSystem_init 1718928000000 1718928000000))
       = Some (setFromUnitVectors EPSILON
           (sunVec_EarthFixed (sim_date (EarthSystem_init 1718928000000 1718928000000) 1718928000016))
           SUN_W)" by blast
  ultimately show ?thesis using h0 h1 h2 by blast
qed

end
